theory Spec2Isabelle
  imports Main "HOL-Library.Multiset" "HOL-Library.Char_ord" "HOL-Library.List_Lexorder"
begin

section \<open>Stage 1 of the transform: preparing a file and its imports for evaluation\<close>

text \<open>
  A shallow embedding of \<^verbatim>\<open>packages/babel/src/transform-stages/1-prepare-for-eval.ts\<close>.
  Every function of that file is a HOL function of the same name. What the file
  imports from elsewhere (the parser, Babel's transform, the evaluator, the module
  resolver, the file system, rule matching, the cache collection's invalidation) is a
  field of the record \<open>env\<close>, so every theorem holds for all collaborators.
  A JavaScript \<^verbatim>\<open>throw\<close> is the value \<open>Inl err\<close>; the model reports the error
  only, not the caches as they were when it was thrown.
\<close>

subsection \<open>Data\<close>

datatype error = Error string

text \<open>Syntax trees, Babel metadata and evaluated modules are opaque to this file.\<close>

datatype ast = File string
datatype metadata = Metadata string
datatype evaluated_module = Module string

text \<open>
  A \<^verbatim>\<open>babel.PluginItem\<close>, as far as \<^verbatim>\<open>isModuleResolver\<close> can tell items apart:
  a value that is not an object (a path or a function), \<^verbatim>\<open>null\<close>, an object with its
  optional \<^verbatim>\<open>key\<close>, and the pair
  \<^verbatim>\<open>[require.resolve('../plugins/preeval'), pluginOptions]\<close>, an array and so an
  object without a \<^verbatim>\<open>key\<close>.
\<close>

datatype plugin_item =
    NonObject string
  | Null
  | Object "string option" string
  | PreevalWithOptions

record transform_options =
  plugins :: "plugin_item list option"

text \<open>An element of \<^verbatim>\<open>allImports\<close>: \<^verbatim>\<open>{ from, what, file }\<close>.\<close>

record import_binding =
  ib_from :: string
  ib_what :: string
  ib_file :: "string option"

record evaluator_config =
  onlyExports :: "string list"
  deadImports :: "import_binding list"

text \<open>
  \<^verbatim>\<open>Map<string, string[]> | null\<close>: the entries in insertion order, as
  \<^verbatim>\<open>imports.entries()\<close> lists them.
\<close>

type_synonym imports_map = "(string \<times> string list) list option"

text \<open>
  The \<^verbatim>\<open>Evaluator\<close> of \<^verbatim>\<open>@linaria/utils\<close>: file name, tree and text, configuration;
  it returns \<^verbatim>\<open>[ast, code, imports, exports?, deadExports?]\<close> or throws. The plugin
  options and the Babel core are the same for a whole run and are left out.
  A missing \<^verbatim>\<open>exports\<close> or \<^verbatim>\<open>deadExports\<close> is \<open>None\<close>.
\<close>

type_synonym evaluator_result =
  "ast \<times> string \<times> imports_map \<times> string list option \<times> string list option"

type_synonym evaluator =
  "string \<Rightarrow> ast \<times> string \<Rightarrow> evaluator_config \<Rightarrow> error + evaluator_result"

text \<open>
  \<^verbatim>\<open>EvalRule\<close>. The action is an evaluator, or a string (\<^verbatim>\<open>'ignore'\<close> or a module name);
  the test, a pattern over the path or a predicate over the path and the text, is a
  predicate.
\<close>

datatype action = ActionFunction evaluator | ActionString string

record eval_rule =
  rule_action :: action
  rule_babelOptions :: "transform_options option"
  rule_test :: "(string \<Rightarrow> string \<Rightarrow> bool) option"

record strict_options =
  extensions :: "string list"
  rules :: "eval_rule list"
  babelOptions :: transform_options

text \<open>
  \<^verbatim>\<open>IEntrypoint\<close>. \<^verbatim>\<open>deadImports\<close> is either absent or the array that one call of
  \<^verbatim>\<open>processImports\<close> owns and keeps pushing to; the entrypoint shares that array, so
  the field is the number of that call's record in the store \<open>batches\<close> below.
\<close>

record entrypoint =
  ep_code :: string
  ep_evaluator :: evaluator
  ep_name :: string
  ep_only :: "string list"
  ep_parseConfig :: transform_options
  ep_deadImports :: "nat option"

datatype created = Ignored | Created entrypoint

text \<open>\<^verbatim>\<open>ITransformFileResult\<close>.\<close>

record transform_result =
  r_ast :: ast
  r_code :: string
  r_metadata :: "metadata option"
  r_exports :: "string list option"
  r_deadExports :: "string list"

text \<open>
  \<^verbatim>\<open>BabelFileResult\<close>: \<open>br_ast\<close> is \<open>None\<close> when the result has no \<^verbatim>\<open>ast\<close> or the
  \<^verbatim>\<open>ast\<close> has no \<^verbatim>\<open>program\<close>. The source asserts \<^verbatim>\<open>code!\<close>, so the text is a
  string.
\<close>

record babel_result =
  br_ast :: "ast option"
  br_code :: string
  br_metadata :: "metadata option"

text \<open>An entry of \<^verbatim>\<open>codeCache\<close>.\<close>

record code_cache_entry =
  ce_imports :: imports_map
  ce_only :: "string list"
  ce_result :: transform_result

text \<open>
  \<^verbatim>\<open>TransformCacheCollection\<close>: the four maps this file reads and writes.
  Modelled from the spec: the class itself is not among the sources; \<open>sources\<close> is
  the text each path's entries were computed from, which \<^verbatim>\<open>invalidateIfChanged\<close>
  compares with.
\<close>

record caches =
  originalASTCache :: "string \<rightharpoonup> ast"
  codeCache :: "string \<rightharpoonup> code_cache_entry"
  evalCache :: "string \<rightharpoonup> evaluated_module"
  resolveCache :: "string \<rightharpoonup> string"
  sources :: "string \<rightharpoonup> string"

text \<open>
  An \<^verbatim>\<open>OnSuccess\<close> callback is either the one the queue gives its first entrypoint
  or the closure \<^verbatim>\<open>onEveryImport\<close> of one call of \<^verbatim>\<open>processImports\<close>.
\<close>

datatype on_success = RootCallback | OnEveryImport nat

text \<open>\<^verbatim>\<open>NextItem\<close>.\<close>

record next_item =
  ni_entrypoint :: entrypoint
  ni_stack :: "string list"
  ni_onSuccess :: on_success

text \<open>
  What the closure \<^verbatim>\<open>onEveryImport\<close> captures: \<^verbatim>\<open>allImports\<close>, the array
  \<^verbatim>\<open>deadImports\<close>, the set \<^verbatim>\<open>remaining\<close> and \<^verbatim>\<open>parent\<close>.
\<close>

record batch =
  b_allImports :: "import_binding list"
  b_deadImports :: "import_binding list"
  b_remaining :: "string option set"
  b_parent :: next_item

text \<open>An element of \<^verbatim>\<open>resolvedImports\<close>.\<close>

record resolved_import =
  ri_importsOnly :: "string list"
  ri_importedFile :: string
  ri_resolved :: "string option"

text \<open>
  The collaborators of this file. \<open>pluginOptions\<close> is what \<^verbatim>\<open>loadLinariaOptions\<close>
  returns for the options of the run. \<open>requireDefault a name\<close> is the default export of the
  module \<open>a\<close>, looked up from the directory of \<open>name\<close>. \<open>loadBabelOptions\<close> stands for
  \<^verbatim>\<open>buildOptions\<close> followed by \<^verbatim>\<open>loadBabelOptions\<close>: the parser options of a file, from
  the global options and those of its rule. \<open>transformFromAstSync\<close> takes the tree, the
  text, the plugin list and the file name; the other options are the same for every file.
  A collaborator is a function: asked the same question twice in a run, it answers the same
  (the files do not change under the run).
\<close>

record env =
  pluginOptions :: strict_options
  extname :: "string \<Rightarrow> string"
  getMatchedRule :: "eval_rule list \<Rightarrow> string \<Rightarrow> string \<Rightarrow> eval_rule"
  requireDefault :: "string \<Rightarrow> string \<Rightarrow> error + evaluator"
  loadBabelOptions :: "string \<Rightarrow> transform_options \<Rightarrow> transform_options option
                         \<Rightarrow> error + transform_options"
  parseFile :: "string \<Rightarrow> string \<Rightarrow> transform_options \<Rightarrow> error + ast"
  transformFromAstSync :: "ast \<Rightarrow> string \<Rightarrow> plugin_item list \<Rightarrow> string \<Rightarrow> error + babel_result option"
  withLinariaMetadata :: "metadata option \<Rightarrow> bool"
  readFileSync :: "string \<Rightarrow> error + string"
  invalidateIfChanged :: "caches \<Rightarrow> string \<Rightarrow> string \<Rightarrow> caches"

text \<open>The state of one driver run: the shared caches, its queue, its closures.\<close>

record state =
  cache :: caches
  queue :: "next_item list"
  batches :: "batch list"

subsection \<open>JavaScript sets and strings\<close>

text \<open>A \<^verbatim>\<open>Set\<close> keeps insertion order: a list without repetition.\<close>

definition set_add :: "'a list \<Rightarrow> 'a \<Rightarrow> 'a list" where
  "set_add s x = (if x \<in> set s then s else s @ [x])"

definition new_Set :: "'a list \<Rightarrow> 'a list" where
  "new_Set xs = foldl set_add [] xs"

text \<open>\<^verbatim>\<open>String.prototype.split\<close> with a separator of one character, and \<^verbatim>\<open>join\<close>.\<close>

fun js_split :: "char \<Rightarrow> string \<Rightarrow> string list" where
  "js_split sep [] = [[]]"
| "js_split sep (c # cs) =
     (if c = sep then [] # js_split sep cs
      else (case js_split sep cs of w # ws \<Rightarrow> (c # w) # ws | [] \<Rightarrow> [[c]]))"

fun js_join :: "string \<Rightarrow> string list \<Rightarrow> string" where
  "js_join sep [] = []"
| "js_join sep [x] = x"
| "js_join sep (x # y # ys) = x @ sep @ js_join sep (y # ys)"

subsection \<open>The pre-pass and the evaluator\<close>

definition isModuleResolver :: "plugin_item \<Rightarrow> bool" where
  "isModuleResolver i =
     (case i of Object k v \<Rightarrow> k = Some ''module-resolver'' | _ \<Rightarrow> False)"

text \<open>Lines 39 to 46 of \<^verbatim>\<open>runPreevalStage\<close>: the list \<^verbatim>\<open>transformPlugins\<close>.\<close>

definition transformPlugins :: "entrypoint \<Rightarrow> plugin_item list" where
  "transformPlugins item =
     (let moduleResolverPlugin =
        (case plugins (ep_parseConfig item) of
           None \<Rightarrow> None
         | Some ps \<Rightarrow> find isModuleResolver ps)
      in case moduleResolverPlugin of
           Some p \<Rightarrow> p # [PreevalWithOptions]
         | None \<Rightarrow> [PreevalWithOptions])"

text \<open>The result is returned with the tree the check has found.\<close>

definition runPreevalStage ::
  "env \<Rightarrow> entrypoint \<Rightarrow> ast \<Rightarrow> error + (ast \<times> string \<times> metadata option)" where
  "runPreevalStage e item a =
     (case transformFromAstSync e a (ep_code item) (transformPlugins item) (ep_name item) of
        Inl err \<Rightarrow> Inl err
      | Inr None \<Rightarrow> Inl (Error ''Babel transform failed'')
      | Inr (Some r) \<Rightarrow>
          (case br_ast r of
             None \<Rightarrow> Inl (Error ''Babel transform failed'')
           | Some t \<Rightarrow> Inr (t, br_code r, br_metadata r)))"

type_synonym prepared =
  "ast \<times> string \<times> imports_map \<times> string list option \<times> string list \<times> metadata option"

text \<open>\<open>heap\<close> is the store of the closures' arrays, which \<open>ep_deadImports\<close> points into.\<close>

definition deadImports_of :: "batch list \<Rightarrow> entrypoint \<Rightarrow> import_binding list" where
  "deadImports_of heap item =
     (case ep_deadImports item of
        None \<Rightarrow> []
      | Some b \<Rightarrow> if b < length heap then b_deadImports (heap ! b) else [])"

definition prepareCode :: "env \<Rightarrow> batch list \<Rightarrow> entrypoint \<Rightarrow> ast \<Rightarrow> error + prepared" where
  "prepareCode e heap item originalAst =
     (case runPreevalStage e item originalAst of
        Inl err \<Rightarrow> Inl err
      | Inr (preAst, preCode, preMetadata) \<Rightarrow>
          if length (ep_only item) = 1 \<and> hd (ep_only item) = ''__linariaPreval''
             \<and> \<not> withLinariaMetadata e preMetadata
          then Inr (preAst, preCode, None, None, [], preMetadata)
          else
            (case ep_evaluator item (ep_name item) (preAst, preCode)
                    \<lparr>onlyExports = ep_only item, deadImports = deadImports_of heap item\<rparr> of
               Inl err \<Rightarrow> Inl err
             | Inr (a, c, imports, exports, deadExports) \<Rightarrow>
                 Inr (a, c, imports, exports,
                      (case deadExports of None \<Rightarrow> [] | Some d \<Rightarrow> d), preMetadata)))"

text \<open>
  \<open>processQueueItem\<close> is only ever called with an entrypoint, so its test for a missing
  item is left out.
\<close>

record processed =
  p_imports :: imports_map
  p_name :: string
  p_result :: transform_result

definition processQueueItem ::
  "env \<Rightarrow> batch list \<Rightarrow> caches \<Rightarrow> entrypoint \<Rightarrow> error + (processed option \<times> caches)" where
  "processQueueItem e heap c item =
     (case (case originalASTCache c (ep_name item) of
              Some a \<Rightarrow> Inr a
            | None \<Rightarrow> parseFile e (ep_name item) (ep_code item) (ep_parseConfig item)) of
        Inl err \<Rightarrow> Inl err
      | Inr a \<Rightarrow>
          (let c1 = c\<lparr>originalASTCache := (originalASTCache c)(ep_name item \<mapsto> a)\<rparr>
           in case prepareCode e heap item a of
                Inl err \<Rightarrow> Inl err
              | Inr (preparedAst, preparedCode, imports, exports, deadExports, metadata) \<Rightarrow>
                  if preparedCode = [] then Inr (None, c1)
                  else Inr (Some \<lparr>p_imports = imports, p_name = ep_name item,
                                   p_result = \<lparr>r_ast = preparedAst, r_code = preparedCode,
                                     r_metadata = metadata, r_exports = exports,
                                     r_deadExports = deadExports\<rparr>\<rparr>, c1)))"

subsection \<open>Comparing requested-export lists\<close>

text \<open>
  \<^verbatim>\<open>isEqual\<close> sorts copies of both arrays. \<^verbatim>\<open>Array.prototype.sort\<close> orders strings by
  their code units; the model sorts by the lexicographic order on characters. Both lists
  are sorted by the same total order and then compared element by element.
\<close>

definition isEqual :: "string list \<Rightarrow> string list \<Rightarrow> bool" where
  "isEqual a b =
     (if ''*'' \<in> set a then True
      else if length a \<noteq> length b then False
      else list_all (\<lambda>(index, item). item = sort b ! index) (enumerate 0 (sort a)))"

subsection \<open>The work queue\<close>

text \<open>
  Modelled from the spec: \<^verbatim>\<open>helpers/ModuleQueue\<close> is not among the sources. The spec
  gives \<^verbatim>\<open>enqueue\<close>, \<^verbatim>\<open>dequeue\<close> and \<^verbatim>\<open>isEmpty\<close> in first-in-first-out order; a new queue
  holds the first entrypoint with an empty import chain, and nobody is notified when
  that entrypoint is done. Every request is an item of its own, with its own callback:
  two requests for one path that wait in the queue together are not merged into one
  item, and the union of their requested exports is made by \<open>processEntrypoint\<close> when the
  second one is processed.
\<close>

definition new_ModuleQueue :: "entrypoint \<Rightarrow> next_item list" where
  "new_ModuleQueue ep = [\<lparr>ni_entrypoint = ep, ni_stack = [], ni_onSuccess = RootCallback\<rparr>]"

definition enqueue :: "next_item list \<Rightarrow> entrypoint \<times> string list \<Rightarrow> on_success \<Rightarrow> next_item list" where
  "enqueue q el cb = q @ [\<lparr>ni_entrypoint = fst el, ni_stack = snd el, ni_onSuccess = cb\<rparr>]"

definition isEmpty :: "next_item list \<Rightarrow> bool" where
  "isEmpty q = (q = [])"

definition dequeue :: "next_item list \<Rightarrow> next_item option \<times> next_item list" where
  "dequeue q = (case q of [] \<Rightarrow> (None, []) | x # xs \<Rightarrow> (Some x, xs))"

subsection \<open>The entrypoint factory\<close>

text \<open>
  Modelled from the spec: \<^verbatim>\<open>getMatchedRule\<close> of \<^verbatim>\<open>helpers/parseFile\<close> is not among the
  sources. The spec matches the path and the text against the ordered list of rules, and
  the first matching rule wins; when no rule matches, the action is \<^verbatim>\<open>'ignore'\<close>. A rule
  without a test matches every file. \<open>createEntrypoint\<close> takes its matcher from \<open>env\<close>;
  what is said below about the first matching rule is said for this matcher.
\<close>

definition rule_matches :: "eval_rule \<Rightarrow> string \<Rightarrow> string \<Rightarrow> bool" where
  "rule_matches r name code = (case rule_test r of None \<Rightarrow> True | Some t \<Rightarrow> t name code)"

definition getMatchedRule_spec :: "eval_rule list \<Rightarrow> string \<Rightarrow> string \<Rightarrow> eval_rule" where
  "getMatchedRule_spec rs name code =
     (case find (\<lambda>r. rule_matches r name code) rs of
        Some r \<Rightarrow> r
      | None \<Rightarrow> \<lparr>rule_action = ActionString ''ignore'', rule_babelOptions = None,
                  rule_test = None\<rparr>)"

definition createEntrypoint :: "env \<Rightarrow> string \<Rightarrow> string list \<Rightarrow> string \<Rightarrow> error + created" where
  "createEntrypoint e name only code =
     (let extension = extname e name in
      if extension \<notin> set (extensions (pluginOptions e)) then Inr Ignored
      else
        (let rule = getMatchedRule e (rules (pluginOptions e)) name code in
         if (case rule_action rule of
               ActionString a \<Rightarrow> a = ''ignore''
             | ActionFunction f \<Rightarrow> False)
         then Inr Ignored
         else
           (case (case rule_action rule of
                    ActionFunction f \<Rightarrow> Inr f
                  | ActionString a \<Rightarrow> requireDefault e a name) of
              Inl err \<Rightarrow> Inl err
            | Inr evaluator \<Rightarrow>
                (case loadBabelOptions e name (babelOptions (pluginOptions e))
                        (rule_babelOptions rule) of
                   Inl err \<Rightarrow> Inl err
                 | Inr fullParserOptions \<Rightarrow>
                     Inr (Created \<lparr>ep_code = code, ep_evaluator = evaluator, ep_name = name,
                            ep_only = only, ep_parseConfig = fullParserOptions,
                            ep_deadImports = None\<rparr>)))))"

subsection \<open>Imports and the propagation of dead exports\<close>

text \<open>
  The closure \<^verbatim>\<open>onEveryImport\<close> of the call of \<^verbatim>\<open>processImports\<close> whose captured
  variables are \<open>batches s ! b\<close>. A closure always has its variables; outside the
  store the model leaves the state as it is.
\<close>

definition onEveryImport :: "nat \<Rightarrow> entrypoint \<Rightarrow> transform_result \<Rightarrow> state \<Rightarrow> state" where
  "onEveryImport b ep res s =
     (if length (batches s) \<le> b then s
      else
        (let bt = batches s ! b;
             remaining = b_remaining bt - {Some (ep_name ep)};
             deadImports =
               b_deadImports bt @
               List.map_filter
                 (\<lambda>deadExport.
                     find (\<lambda>i. ib_from i = ep_name ep \<and> ib_what i = deadExport)
                       (b_allImports bt))
                 (r_deadExports res);
             s1 = s\<lparr>batches := (batches s)
                     [b := bt\<lparr>b_remaining := remaining, b_deadImports := deadImports\<rparr>]\<rparr>;
             parent = b_parent bt
         in if remaining = {} then
              if deadImports = [] then s1
              else
                s1\<lparr>cache := (cache s1)
                      \<lparr>codeCache := (codeCache (cache s1))
                         (ep_name (ni_entrypoint parent) := None)\<rparr>,
                   queue := enqueue (queue s1)
                      ((ni_entrypoint parent)\<lparr>ep_deadImports := Some b\<rparr>, ni_stack parent)
                      (ni_onSuccess parent)\<rparr>
            else s1))"

definition call_onSuccess :: "on_success \<Rightarrow> entrypoint \<Rightarrow> transform_result \<Rightarrow> state \<Rightarrow> state" where
  "call_onSuccess cb ep res s =
     (case cb of RootCallback \<Rightarrow> s | OnEveryImport b \<Rightarrow> onEveryImport b ep res s)"

text \<open>Lines 332 to 345 of \<^verbatim>\<open>processImports\<close>: the write to the resolution cache.\<close>

definition resolveCacheKey :: "string \<Rightarrow> string \<Rightarrow> string" where
  "resolveCacheKey parentName importedFile = parentName @ '' -> '' @ importedFile"

definition mergedImportsOnly :: "string option \<Rightarrow> string list \<Rightarrow> string list" where
  "mergedImportsOnly resolveCached importsOnly =
     (let importsOnlySet = new_Set importsOnly in
      case resolveCached of
        None \<Rightarrow> importsOnlySet
      | Some v \<Rightarrow>
          if v = [] then importsOnlySet
          else
            (case js_split (CHR 0x00) v of
               _ # cachedOnly # _ \<Rightarrow> foldl set_add importsOnlySet (js_split CHR '','' cachedOnly)
             | _ \<Rightarrow> importsOnlySet))"

definition storeResolved :: "caches \<Rightarrow> string \<Rightarrow> string \<Rightarrow> string list \<Rightarrow> string \<Rightarrow> caches" where
  "storeResolved c parentName importedFile importsOnly resolved =
     (let key = resolveCacheKey parentName importedFile;
          resolveCached = resolveCache c key;
          importsOnlySet = mergedImportsOnly resolveCached importsOnly
      in c\<lparr>resolveCache := (resolveCache c)
              (key \<mapsto> resolved @ [CHR 0x00] @ js_join '','' importsOnlySet)\<rparr>)"

text \<open>The loop of \<^verbatim>\<open>processImports\<close> (lines 321 to 363), for the closure number \<open>b\<close>.\<close>

fun processImports_loop ::
  "env \<Rightarrow> nat \<Rightarrow> next_item \<Rightarrow> resolved_import list \<Rightarrow> state \<Rightarrow> error + state" where
  "processImports_loop e b parent [] s = Inr s"
| "processImports_loop e b parent (i # rest) s =
     (case ri_resolved i of
        None \<Rightarrow> processImports_loop e b parent rest s
      | Some resolved \<Rightarrow>
          (let s1 = s\<lparr>cache := storeResolved (cache s) (ep_name (ni_entrypoint parent))
                                  (ri_importedFile i) (ri_importsOnly i) resolved\<rparr>
           in case readFileSync e resolved of
                Inl err \<Rightarrow> Inl err
              | Inr fileContent \<Rightarrow>
                  (case createEntrypoint e resolved (ri_importsOnly i) fileContent of
                     Inl err \<Rightarrow> Inl err
                   | Inr Ignored \<Rightarrow> processImports_loop e b parent rest s1
                   | Inr (Created next) \<Rightarrow>
                       processImports_loop e b parent rest
                         (s1\<lparr>queue := enqueue (queue s1)
                               (next, ep_name (ni_entrypoint parent) # ni_stack parent)
                               (OnEveryImport b)\<rparr>))))"

definition allImports_of :: "resolved_import list \<Rightarrow> import_binding list" where
  "allImports_of resolvedImports =
     concat (map (\<lambda>i. map (\<lambda>what. \<lparr>ib_from = ri_importedFile i, ib_what = what,
                                      ib_file = ri_resolved i\<rparr>) (ri_importsOnly i))
               resolvedImports)"

definition processImports :: "env \<Rightarrow> state \<Rightarrow> next_item \<Rightarrow> resolved_import list \<Rightarrow> error + state" where
  "processImports e s parent resolvedImports =
     (let allImports = allImports_of resolvedImports;
          b = length (batches s);
          s1 = s\<lparr>batches := batches s @
                  [\<lparr>b_allImports = allImports, b_deadImports = [],
                    b_remaining = set (map ib_file allImports), b_parent = parent\<rparr>]\<rparr>
      in processImports_loop e b parent resolvedImports s1)"

subsection \<open>One entrypoint\<close>

datatype process_result =
    Skip
  | Processed imports_map transform_result "string list"

definition mergedOnly_of :: "code_cache_entry option \<Rightarrow> string list \<Rightarrow> string list" where
  "mergedOnly_of cached only =
     (case cached of Some c \<Rightarrow> new_Set (ce_only c @ only) | None \<Rightarrow> only)"

definition recompute ::
  "env \<Rightarrow> batch list \<Rightarrow> caches \<Rightarrow> next_item \<Rightarrow> string list \<Rightarrow> error + (process_result \<times> caches)" where
  "recompute e heap c nextItem mergedOnly =
     (case processQueueItem e heap c ((ni_entrypoint nextItem)\<lparr>ep_only := mergedOnly\<rparr>) of
        Inl err \<Rightarrow> Inl err
      | Inr (None, c1) \<Rightarrow> Inr (Skip, c1)
      | Inr (Some p, c1) \<Rightarrow> Inr (Processed (p_imports p) (p_result p) mergedOnly, c1))"

definition processEntrypoint ::
  "env \<Rightarrow> batch list \<Rightarrow> caches \<Rightarrow> next_item \<Rightarrow> error + (process_result \<times> caches)" where
  "processEntrypoint e heap c nextItem =
     (let code = ep_code (ni_entrypoint nextItem);
          name = ep_name (ni_entrypoint nextItem);
          only = ep_only (ni_entrypoint nextItem);
          c1 = invalidateIfChanged e c name code;
          cached = codeCache c1 name;
          mergedOnly = mergedOnly_of cached only
      in case cached of
           Some entry \<Rightarrow>
             if isEqual (ce_only entry) mergedOnly
             then Inr (Processed
                         (if name \<in> set (ni_stack nextItem) then None else ce_imports entry)
                         (ce_result entry) mergedOnly, c1)
             else recompute e heap (c1\<lparr>evalCache := (evalCache c1)(name := None)\<rparr>)
                    nextItem mergedOnly
         | None \<Rightarrow> recompute e heap c1 nextItem mergedOnly)"

subsection \<open>The drivers\<close>

text \<open>
  The two drivers differ in how the imports of a file are resolved. The blocking
  resolver returns a path or throws; the asynchronous one resolves to a path or to
  \<^verbatim>\<open>null\<close>, or rejects. Both catch the failure and leave \<^verbatim>\<open>resolved\<close> at \<^verbatim>\<open>null\<close>.
  The asynchronous driver is modelled for one request at a time: what other requests
  do to the shared caches while it awaits is outside the model.
\<close>

type_synonym resolver = "string \<Rightarrow> string \<Rightarrow> string list \<Rightarrow> error + string"
type_synonym async_resolver = "string \<Rightarrow> string \<Rightarrow> string list \<Rightarrow> error + string option"

definition resolveImportsSync ::
  "resolver \<Rightarrow> next_item \<Rightarrow> (string \<times> string list) list \<Rightarrow> resolved_import list" where
  "resolveImportsSync resolve item imports =
     map (\<lambda>(importedFile, importsOnly).
            \<lparr>ri_importsOnly = importsOnly, ri_importedFile = importedFile,
             ri_resolved =
               (case resolve importedFile (ep_name (ni_entrypoint item)) (ni_stack item) of
                  Inl err \<Rightarrow> None
                | Inr r \<Rightarrow> Some r)\<rparr>) imports"

definition resolveImportsAsync ::
  "async_resolver \<Rightarrow> next_item \<Rightarrow> (string \<times> string list) list \<Rightarrow> resolved_import list" where
  "resolveImportsAsync resolve item imports =
     map (\<lambda>(importedFile, importsOnly).
            \<lparr>ri_importsOnly = importsOnly, ri_importedFile = importedFile,
             ri_resolved =
               (case resolve importedFile (ep_name (ni_entrypoint item)) (ni_stack item) of
                  Inl err \<Rightarrow> None
                | Inr r \<Rightarrow> r)\<rparr>) imports"

text \<open>
  The body of the \<^verbatim>\<open>while\<close> loop, which both drivers share word for word but for
  \<open>resolveAll\<close>, the resolution of the imports.
\<close>

definition iteration ::
  "env \<Rightarrow> (next_item \<Rightarrow> (string \<times> string list) list \<Rightarrow> resolved_import list) \<Rightarrow> state
     \<Rightarrow> error + state" where
  "iteration e resolveAll s =
     (case dequeue (queue s) of
        (None, q) \<Rightarrow> Inr (s\<lparr>queue := q\<rparr>)
      | (Some item, q) \<Rightarrow>
          (case processEntrypoint e (batches s) (cache s) item of
             Inl err \<Rightarrow> Inl err
           | Inr (Skip, c1) \<Rightarrow> Inr (s\<lparr>queue := q, cache := c1\<rparr>)
           | Inr (Processed imports result mergedOnly, c1) \<Rightarrow>
               (let s1 = s\<lparr>queue := q, cache := c1\<rparr> in
                case (case imports of
                        Some m \<Rightarrow> processImports e s1 item (resolveAll item m)
                      | None \<Rightarrow> Inr s1) of
                  Inl err \<Rightarrow> Inl err
                | Inr s2 \<Rightarrow>
                    (let s3 = s2\<lparr>cache := (cache s2)\<lparr>codeCache := (codeCache (cache s2))
                                 (ep_name (ni_entrypoint item) \<mapsto>
                                    \<lparr>ce_imports = imports, ce_only = mergedOnly,
                                     ce_result = result\<rparr>)\<rparr>\<rparr>
                     in Inr (call_onSuccess (ni_onSuccess item) (ni_entrypoint item)
                               result s3)))))"

text \<open>The loop: \<open>None\<close> is a run that never leaves it.\<close>

partial_function (option) driver ::
  "env \<Rightarrow> (next_item \<Rightarrow> (string \<times> string list) list \<Rightarrow> resolved_import list) \<Rightarrow> state
     \<Rightarrow> (error + state) option" where
  "driver e resolveAll s =
     (if isEmpty (queue s) then Some (Inr s)
      else (case iteration e resolveAll s of
              Inl err \<Rightarrow> Some (Inl err)
            | Inr s1 \<Rightarrow> driver e resolveAll s1))"

text \<open>
  The state after \<open>n\<close> more rounds of the loop: \<open>None\<close> when the loop has ended before.
\<close>

fun rounds ::
  "nat \<Rightarrow> env \<Rightarrow> (next_item \<Rightarrow> (string \<times> string list) list \<Rightarrow> resolved_import list) \<Rightarrow> state
     \<Rightarrow> (error + state) option" where
  "rounds 0 e resolveAll s = Some (Inr s)"
| "rounds (Suc n) e resolveAll s =
     (if isEmpty (queue s) then None
      else (case iteration e resolveAll s of
              Inl err \<Rightarrow> Some (Inl err)
            | Inr s1 \<Rightarrow> rounds n e resolveAll s1))"

record partial_entrypoint =
  pe_code :: string
  pe_name :: string
  pe_only :: "string list"

text \<open>
  A driver returns \<^verbatim>\<open>undefined\<close> (\<open>None\<close>) or the cached result of the entry file,
  and leaves the shared caches changed.
\<close>

definition prepareForEvalWith ::
  "env \<Rightarrow> caches \<Rightarrow> (next_item \<Rightarrow> (string \<times> string list) list \<Rightarrow> resolved_import list)
     \<Rightarrow> partial_entrypoint \<Rightarrow> (error + (transform_result option \<times> caches)) option" where
  "prepareForEvalWith e c resolveAll partialEntrypoint =
     (case createEntrypoint e (pe_name partialEntrypoint) (pe_only partialEntrypoint)
             (pe_code partialEntrypoint) of
        Inl err \<Rightarrow> Some (Inl err)
      | Inr Ignored \<Rightarrow> Some (Inr (None, c))
      | Inr (Created ep) \<Rightarrow>
          (case driver e resolveAll
                  \<lparr>cache = c, queue = new_ModuleQueue ep, batches = []\<rparr> of
             None \<Rightarrow> None
           | Some (Inl err) \<Rightarrow> Some (Inl err)
           | Some (Inr s) \<Rightarrow>
               Some (Inr (map_option ce_result (codeCache (cache s) (ep_name ep)), cache s))))"

definition prepareForEvalSync ::
  "env \<Rightarrow> caches \<Rightarrow> resolver \<Rightarrow> partial_entrypoint
     \<Rightarrow> (error + (transform_result option \<times> caches)) option" where
  "prepareForEvalSync e c resolve partialEntrypoint =
     prepareForEvalWith e c (resolveImportsSync resolve) partialEntrypoint"

definition prepareForEval ::
  "env \<Rightarrow> caches \<Rightarrow> async_resolver \<Rightarrow> partial_entrypoint
     \<Rightarrow> (error + (transform_result option \<times> caches)) option" where
  "prepareForEval e c resolve partialEntrypoint =
     prepareForEvalWith e c (resolveImportsAsync resolve) partialEntrypoint"

subsection \<open>Notions the statements use\<close>

text \<open>
  The requested-export names of a stored value, the way \<^verbatim>\<open>processImports\<close> reads them
  back: nothing for an empty value or one without a second part.
\<close>

definition stored_only :: "string \<Rightarrow> string list option" where
  "stored_only v =
     (if v = [] then None
      else (case js_split (CHR 0x00) v of
              _ # cachedOnly # _ \<Rightarrow> Some (js_split CHR '','' cachedOnly)
            | _ \<Rightarrow> None))"

text \<open>
  Whether \<open>processEntrypoint\<close> serves an entrypoint from the result cache: the condition of
  its branch, on the entry it finds after \<^verbatim>\<open>invalidateIfChanged\<close>. Otherwise it recomputes
  the file, with the caches \<open>recompute_caches\<close>.
\<close>

definition cached_entry :: "env \<Rightarrow> caches \<Rightarrow> entrypoint \<Rightarrow> code_cache_entry option" where
  "cached_entry e c ep = codeCache (invalidateIfChanged e c (ep_name ep) (ep_code ep)) (ep_name ep)"

definition served_from_cache :: "env \<Rightarrow> caches \<Rightarrow> entrypoint \<Rightarrow> bool" where
  "served_from_cache e c ep =
     (case cached_entry e c ep of
        None \<Rightarrow> False
      | Some entry \<Rightarrow> isEqual (ce_only entry) (mergedOnly_of (Some entry) (ep_only ep)))"

definition recompute_caches :: "env \<Rightarrow> caches \<Rightarrow> entrypoint \<Rightarrow> caches" where
  "recompute_caches e c ep =
     (let c1 = invalidateIfChanged e c (ep_name ep) (ep_code ep) in
      case codeCache c1 (ep_name ep) of
        None \<Rightarrow> c1
      | Some entry \<Rightarrow> c1\<lparr>evalCache := (evalCache c1)(ep_name ep := None)\<rparr>)"

subsection \<open>Invariants of a run\<close>

text \<open>
  \<open>blocked s b x\<close>: the closure number \<open>b\<close> still waits for \<open>x\<close>, nothing in the queue
  and no closure will report \<open>x\<close> to it, and no queued entrypoint carries its dead imports.
\<close>

definition blocked :: "state \<Rightarrow> nat \<Rightarrow> string option \<Rightarrow> bool" where
  "blocked s b x \<longleftrightarrow>
     b < length (batches s) \<and> x \<in> b_remaining (batches s ! b)
     \<and> (\<forall>it \<in> set (queue s).
           ni_onSuccess it = OnEveryImport b \<longrightarrow> Some (ep_name (ni_entrypoint it)) \<noteq> x)
     \<and> (\<forall>bt \<in> set (batches s).
           ni_onSuccess (b_parent bt) = OnEveryImport b \<longrightarrow>
             Some (ep_name (ni_entrypoint (b_parent bt))) \<noteq> x)
     \<and> (\<forall>it \<in> set (queue s). ep_deadImports (ni_entrypoint it) \<noteq> Some b)"



text \<open>An entrypoint that \<open>createEntrypoint\<close> does not ignore, whatever names are requested.\<close>

definition accepted :: "env \<Rightarrow> entrypoint \<Rightarrow> bool" where
  "accepted e ep \<longleftrightarrow>
     extname e (ep_name ep) \<in> set (extensions (pluginOptions e))
     \<and> rule_action (getMatchedRule e (rules (pluginOptions e)) (ep_name ep) (ep_code ep))
         \<noteq> ActionString ''ignore''"

definition all_accepted :: "env \<Rightarrow> state \<Rightarrow> bool" where
  "all_accepted e s \<longleftrightarrow>
     list_all (\<lambda>it. accepted e (ni_entrypoint it)) (queue s)
     \<and> list_all (\<lambda>bt. accepted e (ni_entrypoint (b_parent bt))) (batches s)"

subsection \<open>An example configuration\<close>

text \<open>
  A small project for the concrete runs below. Paths are resolved to themselves, except
  \<^verbatim>\<open>./x\<close> (which is \<^verbatim>\<open>/x.js\<close>) and \<^verbatim>\<open>./gone\<close> (which cannot be resolved); only
  \<^verbatim>\<open>.js\<close> files are in scope; the parser and the pre-pass return what they are given,
  and the pre-pass fails on \<^verbatim>\<open>/broken.js\<close>.
\<close>

text \<open>
  The evaluator of the example. \<^verbatim>\<open>/main.js\<close> imports \<^verbatim>\<open>a\<close> from \<^verbatim>\<open>/x.js\<close>, and once it
  is told of a dead import it imports \<^verbatim>\<open>c\<close> from \<^verbatim>\<open>/y.js\<close> instead. \<^verbatim>\<open>/x.js\<close> reports
  its export \<^verbatim>\<open>a\<close> dead and \<^verbatim>\<open>/y.js\<close> its export \<^verbatim>\<open>c\<close>. The other files import
  \<^verbatim>\<open>a\<close> from \<^verbatim>\<open>/x.js\<close> and one more file each. \<^verbatim>\<open>/empty.js\<close> is transformed to the
  empty text. For any other file the evaluator throws.
\<close>

definition example_evaluator :: evaluator where
  "example_evaluator filename treeAndText config =
     (if filename = ''/main.js'' then
        Inr (fst treeAndText, ''main'',
             Some (if deadImports config = [] then [(''/x.js'', [''a''])]
                   else [(''/y.js'', [''c''])]),
             None, None)
      else if filename = ''/x.js'' then
        Inr (fst treeAndText, ''x'', None, Some [''b''], Some [''a''])
      else if filename = ''/y.js'' then
        Inr (fst treeAndText, ''y'', None, None, Some [''c''])
      else if filename = ''/app.js'' then
        Inr (fst treeAndText, ''app'',
             Some [(''./gone'', [''g'']), (''/x.js'', [''a''])], None, None)
      else if filename = ''/entry.js'' then
        Inr (fst treeAndText, ''entry'',
             Some [(''./gone'', []), (''/x.js'', [''a''])], None, None)
      else if filename = ''/lib.js'' then
        Inr (fst treeAndText, ''lib'',
             Some [(''/empty.js'', [''e'']), (''/x.js'', [''a''])], None, None)
      else if filename = ''/page.js'' then
        Inr (fst treeAndText, ''page'',
             Some [(''/vendor.css'', [''v'']), (''/x.js'', [''a''])], None, None)
      else if filename = ''/empty.js'' then
        Inr (fst treeAndText, [], None, None, None)
      else Inl (Error ''evaluator called''))"

text \<open>
  \<^verbatim>\<open>path.extname\<close> of Node for POSIX paths: the extension of the last segment of the
  path, trailing slashes apart, from its last dot on; it is empty when that segment has no
  dot, when its only dot is its first character, and when the segment is \<^verbatim>\<open>..\<close>.
\<close>

definition example_extname :: "string \<Rightarrow> string" where
  "example_extname p =
     (let trimmed = rev (dropWhile (\<lambda>c. c = CHR ''/'') (rev p));
          base = rev (takeWhile (\<lambda>c. c \<noteq> CHR ''/'') (rev trimmed));
          ext = rev (takeWhile (\<lambda>c. c \<noteq> CHR ''.'') (rev base))
      in if CHR ''.'' \<notin> set base then []
         else if length base = length ext + 1 then []
         else if base = ''..'' then []
         else CHR ''.'' # ext)"

text \<open>
  Modelled from the spec: \<^verbatim>\<open>invalidateIfChanged\<close> is not among the sources. When the stored
  text of a path differs from the new one, the entries of that path are dropped: its
  result, its parsed tree, its evaluated module and the resolution edges it imports
  through.
\<close>

definition example_invalidateIfChanged :: "caches \<Rightarrow> string \<Rightarrow> string \<Rightarrow> caches" where
  "example_invalidateIfChanged c path newSource =
     (if sources c path = Some newSource then c
      else c\<lparr>sources := (sources c)(path \<mapsto> newSource),
             originalASTCache := (originalASTCache c)(path := None),
             codeCache := (codeCache c)(path := None),
             evalCache := (evalCache c)(path := None),
             resolveCache := (\<lambda>k. if take (length (path @ '' -> '')) k = path @ '' -> ''
                                  then None else resolveCache c k)\<rparr>)"

text \<open>
  Files named \<^verbatim>\<open>/generated.js\<close> are ignored by the first rule, every other \<^verbatim>\<open>.js\<close>
  file is evaluated by \<open>example_evaluator\<close> under the second; no file matches both rules.
  No evaluator can be loaded by name. A file has linaria metadata when it has metadata at
  all, and only \<^verbatim>\<open>/styled.js\<close> has.
\<close>

definition example_env :: env where
  "example_env =
     \<lparr>pluginOptions =
        \<lparr>extensions = [''.js''],
         rules = [\<lparr>rule_action = ActionString ''ignore'', rule_babelOptions = None,
                   rule_test = Some (\<lambda>path code. path = ''/generated.js'')\<rparr>,
                  \<lparr>rule_action = ActionFunction example_evaluator, rule_babelOptions = None,
                   rule_test = Some (\<lambda>path code. path \<noteq> ''/generated.js'')\<rparr>],
         babelOptions = \<lparr>plugins = None\<rparr>\<rparr>,
      extname = example_extname,
      getMatchedRule = getMatchedRule_spec,
      requireDefault = (\<lambda>a name. Inl (Error ''Cannot find module'')),
      loadBabelOptions = (\<lambda>name global local.
         Inr (case local of None \<Rightarrow> global | Some l \<Rightarrow> l)),
      parseFile = (\<lambda>name code config. Inr (File code)),
      transformFromAstSync = (\<lambda>a code ps filename.
         if filename = ''/broken.js'' then Inr None
         else Inr (Some \<lparr>br_ast = Some a, br_code = code,
                         br_metadata = (if filename = ''/styled.js''
                                        then Some (Metadata ''linaria'') else None)\<rparr>)),
      withLinariaMetadata = (\<lambda>m. m \<noteq> None),
      readFileSync = (\<lambda>p. Inr (''source of '' @ p)),
      invalidateIfChanged = example_invalidateIfChanged\<rparr>"

definition example_resolve :: resolver where
  "example_resolve what importer stack =
     (if what = ''./gone'' then Inl (Error ''cannot resolve'')
      else if what = ''./x'' then Inr ''/x.js''
      else Inr what)"

definition example_resolve_async :: async_resolver where
  "example_resolve_async what importer stack =
     (if what = ''./gone'' then Inl (Error ''cannot resolve'')
      else if what = ''./none'' then Inr None
      else if what = ''./x'' then Inr (Some ''/x.js'')
      else Inr (Some what))"

definition empty_caches :: caches where
  "empty_caches = \<lparr>originalASTCache = Map.empty, codeCache = Map.empty, evalCache = Map.empty,
                    resolveCache = Map.empty, sources = Map.empty\<rparr>"

definition example_entry :: "string \<Rightarrow> string list \<Rightarrow> entrypoint" where
  "example_entry name only =
     \<lparr>ep_code = ''source of '' @ name, ep_evaluator = example_evaluator, ep_name = name,
      ep_only = only, ep_parseConfig = \<lparr>plugins = None\<rparr>, ep_deadImports = None\<rparr>"

text \<open>An entrypoint of the example, and the item a new queue holds for it.\<close>

definition example_item :: "string \<Rightarrow> string list \<Rightarrow> next_item" where
  "example_item name only =
     \<lparr>ni_entrypoint = example_entry name only, ni_stack = [], ni_onSuccess = RootCallback\<rparr>"

definition example_start :: "string \<Rightarrow> state" where
  "example_start name =
     \<lparr>cache = empty_caches, queue = new_ModuleQueue (example_entry name [''*'']), batches = []\<rparr>"

text \<open>Caches that hold a result of \<^verbatim>\<open>/x.js\<close>, computed for the given names.\<close>

definition example_cached :: "string list \<Rightarrow> caches" where
  "example_cached only =
     empty_caches
       \<lparr>codeCache := [''/x.js'' \<mapsto>
            \<lparr>ce_imports = None, ce_only = only,
             ce_result = \<lparr>r_ast = File ''cached'', r_code = ''cached x'', r_metadata = None,
                           r_exports = None, r_deadExports = []\<rparr>\<rparr>],
        evalCache := [''/x.js'' \<mapsto> Module ''x''],
        sources := [''/x.js'' \<mapsto> ''source of /x.js'']\<rparr>"

definition example_plugins :: "plugin_item list" where
  "example_plugins =
     [NonObject ''@babel/plugin-syntax-jsx'', Object (Some ''module-resolver'') ''alias'',
      Object (Some ''transform-runtime'') '''', Object (Some ''module-resolver'') ''second'']"

text \<open>A state in which \<^verbatim>\<open>/main.js\<close> waits for its import \<^verbatim>\<open>a\<close> from \<^verbatim>\<open>/x.js\<close>.\<close>

definition example_waiting :: state where
  "example_waiting =
     \<lparr>cache = example_cached [''*''], queue = [],
      batches = [\<lparr>b_allImports = [\<lparr>ib_from = ''/x.js'', ib_what = ''a'', ib_file = Some ''/x.js''\<rparr>],
                  b_deadImports = [], b_remaining = {Some ''/x.js''},
                  b_parent = example_item ''/main.js'' [''*'']\<rparr>]\<rparr>"

section \<open>Properties\<close>

lemmas example_defs =
  example_start_def example_env_def example_resolve_def example_resolve_async_def
  example_entry_def example_item_def empty_caches_def example_invalidateIfChanged_def
  example_extname_def example_evaluator_def getMatchedRule_spec_def rule_matches_def
  example_cached_def
  example_plugins_def example_waiting_def

lemmas stage_defs =
  new_ModuleQueue_def isEmpty_def iteration_def dequeue_def processEntrypoint_def
  mergedOnly_of_def recompute_def processQueueItem_def prepareCode_def runPreevalStage_def
  transformPlugins_def deadImports_of_def processImports_def allImports_of_def
  resolveImportsSync_def createEntrypoint_def storeResolved_def mergedImportsOnly_def
  resolveCacheKey_def enqueue_def call_onSuccess_def onEveryImport_def new_Set_def set_add_def
  List.map_filter_def Let_def

subsection \<open>The plugin list of the pre-pass\<close>

lemma isModuleResolver_iff: "isModuleResolver i \<longleftrightarrow> (\<exists>v. i = Object (Some ''module-resolver'') v)"
  by (cases i) (auto simp: isModuleResolver_def)

text \<open>
  Claim C10. When the parse configuration of an entrypoint contains a module-resolver
  plugin (an object whose \<^verbatim>\<open>key\<close> is \<^verbatim>\<open>'module-resolver'\<close>), the plugin list that
  \<open>runPreevalStage\<close> hands to Babel is the first such plugin followed by the pre-pass
  plugin; without such a plugin, or without a plugin list, it is the pre-pass plugin alone.
\<close>

theorem plugins_module_resolver_first:
  "(case plugins (ep_parseConfig item) of
      None \<Rightarrow> transformPlugins item = [PreevalWithOptions]
    | Some ps \<Rightarrow>
        if \<exists>p \<in> set ps. isModuleResolver p
        then \<exists>before p after. ps = before @ p # after \<and> isModuleResolver p
               \<and> (\<forall>q \<in> set before. \<not> isModuleResolver q)
               \<and> transformPlugins item = [p, PreevalWithOptions]
        else transformPlugins item = [PreevalWithOptions])"
proof (cases "plugins (ep_parseConfig item)")
  case None
  then show ?thesis by (simp add: transformPlugins_def)
next
  case (Some ps)
  show ?thesis
  proof (cases "find isModuleResolver ps")
    case None
    then have "\<not> (\<exists>p \<in> set ps. isModuleResolver p)" by (simp add: find_None_iff)
    with None Some show ?thesis by (simp add: transformPlugins_def)
  next
    case (Some p)
    then obtain i where i: "i < length ps" "isModuleResolver (ps ! i)" "p = ps ! i"
      "\<forall>j<i. \<not> isModuleResolver (ps ! j)"
      by (auto simp: find_Some_iff)
    have ps: "ps = take i ps @ p # drop (Suc i) ps"
      using i by (simp add: id_take_nth_drop)
    have before: "\<forall>q \<in> set (take i ps). \<not> isModuleResolver q"
      using i by (auto simp: in_set_conv_nth)
    have ex: "\<exists>p \<in> set ps. isModuleResolver p" using i by auto
    have isp: "isModuleResolver p" using i by simp
    have tp: "transformPlugins item = [p, PreevalWithOptions]"
      using Some \<open>plugins (ep_parseConfig item) = Some ps\<close> by (simp add: transformPlugins_def)
    have "\<exists>before p after. ps = before @ p # after \<and> isModuleResolver p
               \<and> (\<forall>q \<in> set before. \<not> isModuleResolver q)
               \<and> transformPlugins item = [p, PreevalWithOptions]"
      apply (rule exI[of _ "take i ps"])
      apply (rule exI[of _ p])
      apply (rule exI[of _ "drop (Suc i) ps"])
      apply (intro conjI)
         apply (rule ps)
        apply (rule isp)
       apply (rule before)
      apply (rule tp)
      done
    with ex show ?thesis
      by (simp only: \<open>plugins (ep_parseConfig item) = Some ps\<close> option.case if_True)
  qed
qed

theorem plugins_module_resolver_first_witness:
  "(\<exists>p \<in> set example_plugins. isModuleResolver p)
   \<and> transformPlugins ((example_entry ''/main.js'' [''*''])
         \<lparr>ep_parseConfig := \<lparr>plugins = Some example_plugins\<rparr>\<rparr>)
       = [Object (Some ''module-resolver'') ''alias'', PreevalWithOptions]"
  using plugins_module_resolver_first[of "(example_entry ''/main.js'' [''*''])
         \<lparr>ep_parseConfig := \<lparr>plugins = Some example_plugins\<rparr>\<rparr>"]
  by (simp add: example_defs transformPlugins_def isModuleResolver_def)

subsection \<open>The short circuit of \<open>prepareCode\<close>\<close>

lemma transformPlugins_only [simp]: "transformPlugins (item\<lparr>ep_only := m\<rparr>) = transformPlugins item"
  by (simp add: transformPlugins_def)

lemma transformPlugins_evaluator [simp]: "transformPlugins (item\<lparr>ep_evaluator := ev\<rparr>) = transformPlugins item"
  by (simp add: transformPlugins_def)

lemma runPreevalStage_evaluator [simp]:
  "runPreevalStage e (item\<lparr>ep_evaluator := ev\<rparr>) a = runPreevalStage e item a"
  by (simp add: runPreevalStage_def)

text \<open>
  Claim C6. When the only requested export is \<^verbatim>\<open>__linariaPreval\<close> and the result of the
  pre-pass carries no linaria metadata, \<open>prepareCode\<close> returns the tree and the text of the
  pre-pass with no imports map, no exports and no dead exports, and the result does not
  depend on the evaluator: it is not called.
\<close>

theorem prepareCode_short_circuit:
  assumes "ep_only item = [''__linariaPreval'']"
    and "transformFromAstSync e a (ep_code item) (transformPlugins item) (ep_name item) = Inr (Some r)"
    and "br_ast r = Some t"
    and "\<not> withLinariaMetadata e (br_metadata r)"
  shows "prepareCode e heap item a = Inr (t, br_code r, None, None, [], br_metadata r)
       \<and> (\<forall>ev. prepareCode e heap (item\<lparr>ep_evaluator := ev\<rparr>) a = prepareCode e heap item a)"
proof -
  have pre: "runPreevalStage e item a = Inr (t, br_code r, br_metadata r)"
    using assms(2,3) by (simp add: runPreevalStage_def)
  have "prepareCode e heap (item\<lparr>ep_evaluator := ev\<rparr>) a
          = Inr (t, br_code r, None, None, [], br_metadata r)" for ev
    using pre assms(1,4) by (simp add: prepareCode_def)
  from this[of "ep_evaluator item"] this show ?thesis by simp
qed

theorem prepareCode_short_circuit_witness:
  "prepareCode example_env [] (example_entry ''/plain.js'' [''__linariaPreval''])
     (File ''plain'')
   = Inr (File ''plain'', ''source of /plain.js'', None, None, [], None)
   \<and> example_evaluator ''/plain.js'' (File ''plain'', ''source of /plain.js'')
        \<lparr>onlyExports = [''__linariaPreval''], deadImports = []\<rparr> = Inl (Error ''evaluator called'')"
proof -
  let ?item = "example_entry ''/plain.js'' [''__linariaPreval'']"
  let ?r = "\<lparr>br_ast = Some (File ''plain''), br_code = ''source of /plain.js'', br_metadata = None\<rparr>"
  have 1: "ep_only ?item = [''__linariaPreval'']" by (simp add: example_defs)
  have 2: "transformFromAstSync example_env (File ''plain'') (ep_code ?item)
             (transformPlugins ?item) (ep_name ?item) = Inr (Some ?r)"
    by (simp add: example_defs)
  have 3: "br_ast ?r = Some (File ''plain'')" by simp
  have 4: "\<not> withLinariaMetadata example_env (br_metadata ?r)" by (simp add: example_defs)
  from prepareCode_short_circuit[OF 1 2 3 4, of "[]"] show ?thesis by (simp add: example_evaluator_def)
qed

subsection \<open>The loop and its rounds\<close>

lemma rounds_driver:
  "rounds n e resolveAll s0 = Some (Inr s) \<Longrightarrow> driver e resolveAll s0 = driver e resolveAll s"
proof (induction n arbitrary: s0)
  case 0
  then show ?case by simp
next
  case (Suc n)
  then show ?case
    by (subst driver.simps) (auto split: if_splits sum.splits)
qed

lemma rounds_error:
  "rounds n e resolveAll s0 = Some (Inl err) \<Longrightarrow> driver e resolveAll s0 = Some (Inl err)"
proof (induction n arbitrary: s0)
  case 0
  then show ?case by simp
next
  case (Suc n)
  then show ?case
    by (subst driver.simps) (auto split: if_splits sum.splits)
qed

lemma processEntrypoint_recompute:
  assumes "\<not> served_from_cache e c (ni_entrypoint nextItem)"
  shows "processEntrypoint e heap c nextItem =
           recompute e heap (recompute_caches e c (ni_entrypoint nextItem)) nextItem
             (mergedOnly_of (cached_entry e c (ni_entrypoint nextItem))
                (ep_only (ni_entrypoint nextItem)))"
  using assms
  by (auto simp: processEntrypoint_def served_from_cache_def cached_entry_def
        recompute_caches_def Let_def split: option.splits)

lemma codeCache_recompute_caches [simp]:
  "codeCache (recompute_caches e c ep) = codeCache (invalidateIfChanged e c (ep_name ep) (ep_code ep))"
  "resolveCache (recompute_caches e c ep) = resolveCache (invalidateIfChanged e c (ep_name ep) (ep_code ep))"
  "originalASTCache (recompute_caches e c ep) = originalASTCache (invalidateIfChanged e c (ep_name ep) (ep_code ep))"
  by (simp_all add: recompute_caches_def Let_def split: option.splits)

subsection \<open>A failing pre-pass\<close>

lemma runPreevalStage_fails:
  assumes "transformFromAstSync e a (ep_code item) (transformPlugins item) (ep_name item) = Inr None
         \<or> (\<exists>r. transformFromAstSync e a (ep_code item) (transformPlugins item) (ep_name item) = Inr (Some r)
                \<and> br_ast r = None)"
  shows "runPreevalStage e item a = Inl (Error ''Babel transform failed'')"
  using assms by (auto simp: runPreevalStage_def)

lemma prepareCode_fails:
  "runPreevalStage e item a = Inl err \<Longrightarrow> prepareCode e heap item a = Inl err"
  by (simp add: prepareCode_def)

lemma processQueueItem_fails:
  assumes "originalASTCache c (ep_name item) = Some a
         \<or> originalASTCache c (ep_name item) = None
            \<and> parseFile e (ep_name item) (ep_code item) (ep_parseConfig item) = Inr a"
    and "prepareCode e heap item a = Inl err"
  shows "processQueueItem e heap c item = Inl err"
  using assms by (auto simp: processQueueItem_def)

text \<open>
  Claim C9. When the pre-pass transform of a file yields no result, or a result without a
  program tree, \<open>runPreevalStage\<close> throws; so does \<open>prepareCode\<close>, the round of the loop
  that processes the file, the loop, and either driver, whatever rounds came before.
\<close>

theorem preeval_failure_propagates:
  assumes start: "rounds n e resolveAll s0 = Some (Inr s)"
    and q: "queue s = nextItem # q"
    and ep: "ep = ni_entrypoint nextItem"
    and miss: "\<not> served_from_cache e (cache s) ep"
    and c1: "c1 = recompute_caches e (cache s) ep"
    and tree: "originalASTCache c1 (ep_name ep) = Some a
             \<or> originalASTCache c1 (ep_name ep) = None
                \<and> parseFile e (ep_name ep) (ep_code ep) (ep_parseConfig ep) = Inr a"
    and fail: "transformFromAstSync e a (ep_code ep) (transformPlugins ep) (ep_name ep) = Inr None
         \<or> (\<exists>r. transformFromAstSync e a (ep_code ep) (transformPlugins ep) (ep_name ep) = Inr (Some r)
                \<and> br_ast r = None)"
  shows "runPreevalStage e ep a = Inl (Error ''Babel transform failed'')
       \<and> prepareCode e (batches s) ep a = Inl (Error ''Babel transform failed'')
       \<and> iteration e resolveAll s = Inl (Error ''Babel transform failed'')
       \<and> driver e resolveAll s0 = Some (Inl (Error ''Babel transform failed''))
       \<and> (createEntrypoint e (pe_name pe) (pe_only pe) (pe_code pe) = Inr (Created ep0)
          \<and> s0 = \<lparr>cache = c, queue = new_ModuleQueue ep0, batches = []\<rparr> \<longrightarrow>
            (resolveAll = resolveImportsSync resolve \<longrightarrow>
               prepareForEvalSync e c resolve pe = Some (Inl (Error ''Babel transform failed'')))
            \<and> (resolveAll = resolveImportsAsync aresolve \<longrightarrow>
               prepareForEval e c aresolve pe = Some (Inl (Error ''Babel transform failed''))))"
proof -
  let ?m = "mergedOnly_of (cached_entry e (cache s) ep) (ep_only ep)"
  let ?err = "Error ''Babel transform failed''"
  have r1: "runPreevalStage e ep a = Inl ?err"
    using fail by (rule runPreevalStage_fails)
  have r2: "prepareCode e (batches s) ep a = Inl ?err"
    using r1 by (rule prepareCode_fails)
  have "runPreevalStage e (ep\<lparr>ep_only := ?m\<rparr>) a = Inl ?err"
    using fail by (intro runPreevalStage_fails) simp
  then have "prepareCode e (batches s) (ep\<lparr>ep_only := ?m\<rparr>) a = Inl ?err"
    by (rule prepareCode_fails)
  then have pq: "processQueueItem e (batches s) c1 (ep\<lparr>ep_only := ?m\<rparr>) = Inl ?err"
    using tree by (intro processQueueItem_fails[where a=a]) simp_all
  have pe: "processEntrypoint e (batches s) (cache s) nextItem = Inl ?err"
    using processEntrypoint_recompute[of e "cache s" nextItem "batches s"] miss pq
    by (simp add: ep c1 recompute_def)
  have it: "iteration e resolveAll s = Inl ?err"
    using q pe by (simp add: iteration_def dequeue_def)
  have "driver e resolveAll s = Some (Inl ?err)"
    using q it by (subst driver.simps) (simp add: isEmpty_def)
  then have dr: "driver e resolveAll s0 = Some (Inl ?err)"
    using rounds_driver[OF start] by simp
  have top: "prepareForEvalWith e c resolveAll pe = Some (Inl ?err)"
    if "createEntrypoint e (pe_name pe) (pe_only pe) (pe_code pe) = Inr (Created ep0)"
      and "s0 = \<lparr>cache = c, queue = new_ModuleQueue ep0, batches = []\<rparr>"
    using that dr by (simp add: prepareForEvalWith_def)
  show ?thesis
    using r1 r2 it dr top by (auto simp: prepareForEvalSync_def prepareForEval_def)
qed

theorem preeval_failure_propagates_witness:
  "prepareForEvalSync example_env empty_caches example_resolve
     \<lparr>pe_code = ''source of /broken.js'', pe_name = ''/broken.js'', pe_only = [''*'']\<rparr>
     = Some (Inl (Error ''Babel transform failed''))"
proof -
  let ?s = "example_start ''/broken.js''"
  let ?item = "example_item ''/broken.js'' [''*'']"
  let ?ep = "example_entry ''/broken.js'' [''*'']"
  let ?pe = "\<lparr>pe_code = ''source of /broken.js'', pe_name = ''/broken.js'', pe_only = [''*'']\<rparr>"
  have 1: "rounds 0 example_env (resolveImportsSync example_resolve) ?s = Some (Inr ?s)" by simp
  have 2: "queue ?s = ?item # []" by (simp add: example_defs new_ModuleQueue_def)
  have 3: "?ep = ni_entrypoint ?item" by (simp add: example_defs)
  have 4: "\<not> served_from_cache example_env (cache ?s) ?ep"
    by (simp add: served_from_cache_def cached_entry_def example_defs)
  have 5: "originalASTCache (recompute_caches example_env (cache ?s) ?ep) (ep_name ?ep) = Some (File ''source of /broken.js'')
             \<or> originalASTCache (recompute_caches example_env (cache ?s) ?ep) (ep_name ?ep) = None
                \<and> parseFile example_env (ep_name ?ep) (ep_code ?ep) (ep_parseConfig ?ep)
                    = Inr (File ''source of /broken.js'')"
    by (simp add: recompute_caches_def example_defs)
  have 6: "transformFromAstSync example_env (File ''source of /broken.js'') (ep_code ?ep)
              (transformPlugins ?ep) (ep_name ?ep) = Inr None
         \<or> (\<exists>r. transformFromAstSync example_env (File ''source of /broken.js'') (ep_code ?ep)
                    (transformPlugins ?ep) (ep_name ?ep) = Inr (Some r) \<and> br_ast r = None)"
    by (simp add: example_defs)
  have 7: "createEntrypoint example_env (pe_name ?pe) (pe_only ?pe) (pe_code ?pe) = Inr (Created ?ep)"
    by (simp add: example_defs createEntrypoint_def)
  have 8: "?s = \<lparr>cache = empty_caches, queue = new_ModuleQueue ?ep, batches = []\<rparr>"
    by (simp add: example_start_def)
  from preeval_failure_propagates[OF 1 2 3 4 refl 5 6, where pe = ?pe and ?ep0.0 = ?ep and c = empty_caches
         and resolve = example_resolve] 7 8
  show ?thesis by simp
qed

subsection \<open>An empty transform output\<close>

text \<open>
  Claim C7. When the transform of a dequeued item yields the empty text, the round drops the
  item: the result cache is as \<^verbatim>\<open>invalidateIfChanged\<close> left it, the resolution cache, the
  rest of the queue and the closures are untouched (no import is resolved or enqueued, no
  callback runs), the round is no error, and the loop goes on with the rest of the queue.
\<close>

theorem empty_source_dropped:
  assumes q: "queue s = nextItem # q"
    and ep: "ep = ni_entrypoint nextItem"
    and miss: "\<not> served_from_cache e (cache s) ep"
    and c1: "c1 = recompute_caches e (cache s) ep"
    and tree: "originalASTCache c1 (ep_name ep) = Some a
             \<or> originalASTCache c1 (ep_name ep) = None
                \<and> parseFile e (ep_name ep) (ep_code ep) (ep_parseConfig ep) = Inr a"
    and empty: "prepareCode e (batches s)
                  (ep\<lparr>ep_only := mergedOnly_of (cached_entry e (cache s) ep) (ep_only ep)\<rparr>) a
                = Inr (t, [], imports, exports, dead, meta)"
    and s': "s' = s\<lparr>queue := q,
                    cache := c1\<lparr>originalASTCache := (originalASTCache c1)(ep_name ep \<mapsto> a)\<rparr>\<rparr>"
  shows "iteration e resolveAll s = Inr s'
       \<and> codeCache (cache s') = codeCache (invalidateIfChanged e (cache s) (ep_name ep) (ep_code ep))
       \<and> resolveCache (cache s') = resolveCache (invalidateIfChanged e (cache s) (ep_name ep) (ep_code ep))
       \<and> queue s' = q \<and> batches s' = batches s
       \<and> driver e resolveAll s = driver e resolveAll s'"
proof -
  let ?m = "mergedOnly_of (cached_entry e (cache s) ep) (ep_only ep)"
  have pq: "processQueueItem e (batches s) c1 (ep\<lparr>ep_only := ?m\<rparr>)
              = Inr (None, c1\<lparr>originalASTCache := (originalASTCache c1)(ep_name ep \<mapsto> a)\<rparr>)"
    using tree empty by (auto simp: processQueueItem_def)
  have pe: "processEntrypoint e (batches s) (cache s) nextItem
              = Inr (Skip, c1\<lparr>originalASTCache := (originalASTCache c1)(ep_name ep \<mapsto> a)\<rparr>)"
    using processEntrypoint_recompute[of e "cache s" nextItem "batches s"] miss pq
    by (simp add: ep c1 recompute_def)
  have it: "iteration e resolveAll s = Inr s'"
    using q pe by (simp add: iteration_def dequeue_def s')
  have dr: "driver e resolveAll s = driver e resolveAll s'"
    using q it by (subst driver.simps) (simp add: isEmpty_def)
  show ?thesis using it dr by (simp add: s' c1)
qed

theorem empty_source_dropped_witness:
  "\<exists>s'. iteration example_env (resolveImportsSync example_resolve) (example_start ''/empty.js'')
           = Inr s'
        \<and> queue s' = [] \<and> batches s' = [] \<and> codeCache (cache s') ''/empty.js'' = None
        \<and> driver example_env (resolveImportsSync example_resolve) (example_start ''/empty.js'')
           = Some (Inr s')"
proof -
  let ?s = "example_start ''/empty.js''"
  let ?item = "example_item ''/empty.js'' [''*'']"
  let ?ep = "example_entry ''/empty.js'' [''*'']"
  let ?a = "File ''source of /empty.js''"
  let ?c1 = "recompute_caches example_env (cache ?s) ?ep"
  let ?s' = "?s\<lparr>queue := [],
                cache := ?c1\<lparr>originalASTCache := (originalASTCache ?c1)(ep_name ?ep \<mapsto> ?a)\<rparr>\<rparr>"
  have 2: "queue ?s = ?item # []" by (simp add: example_defs new_ModuleQueue_def)
  have 3: "?ep = ni_entrypoint ?item" by (simp add: example_defs)
  have 4: "\<not> served_from_cache example_env (cache ?s) ?ep"
    by (simp add: served_from_cache_def cached_entry_def example_defs)
  have 5: "originalASTCache ?c1 (ep_name ?ep) = Some ?a
             \<or> originalASTCache ?c1 (ep_name ?ep) = None
                \<and> parseFile example_env (ep_name ?ep) (ep_code ?ep) (ep_parseConfig ?ep) = Inr ?a"
    by (simp add: recompute_caches_def example_defs)
  have 6: "prepareCode example_env (batches ?s)
             (?ep\<lparr>ep_only := mergedOnly_of (cached_entry example_env (cache ?s) ?ep) (ep_only ?ep)\<rparr>) ?a
           = Inr (?a, [], None, None, [], None)"
    by (simp add: example_defs cached_entry_def stage_defs)
  from empty_source_dropped[OF 2 3 4 refl 5 6 refl, of "resolveImportsSync example_resolve"]
  have it: "iteration example_env (resolveImportsSync example_resolve) ?s = Inr ?s'"
    and dr: "driver example_env (resolveImportsSync example_resolve) ?s
               = driver example_env (resolveImportsSync example_resolve) ?s'"
    by simp_all
  have "driver example_env (resolveImportsSync example_resolve) ?s' = Some (Inr ?s')"
    by (subst driver.simps) (simp add: isEmpty_def)
  with it dr show ?thesis
    by (simp add: recompute_caches_def example_defs)
qed

subsection \<open>Requested-export lists and the result cache\<close>

lemma foldl_set_add_Cons:
  "foldl set_add acc (x # xs) = foldl set_add (if x \<in> set acc then acc else acc @ [x]) xs"
  by (simp add: set_add_def)

lemma set_foldl_set_add: "set (foldl set_add acc xs) = set acc \<union> set xs"
  by (induction xs arbitrary: acc) (auto simp: set_add_def)

lemma distinct_foldl_set_add: "distinct acc \<Longrightarrow> distinct (foldl set_add acc xs)"
  by (induction xs arbitrary: acc) (auto simp: set_add_def)

lemma foldl_set_add_subset: "set xs \<subseteq> set acc \<Longrightarrow> foldl set_add acc xs = acc"
  by (induction xs arbitrary: acc) (auto simp: set_add_def)

lemma length_foldl_set_add: "length acc \<le> length (foldl set_add acc xs)"
proof (induction xs arbitrary: acc)
  case Nil
  then show ?case by simp
next
  case (Cons x xs)
  have "length acc \<le> length (set_add acc x)" by (simp add: set_add_def)
  also have "\<dots> \<le> length (foldl set_add (set_add acc x) xs)" by (rule Cons.IH)
  finally show ?case by simp
qed

lemma length_foldl_set_add_eq:
  "length (foldl set_add acc xs) = length acc \<Longrightarrow> set xs \<subseteq> set acc"
proof (induction xs arbitrary: acc)
  case Nil
  then show ?case by simp
next
  case (Cons x xs)
  show ?case
  proof (cases "x \<in> set acc")
    case True
    with Cons show ?thesis by (simp add: set_add_def)
  next
    case False
    have "length (acc @ [x]) \<le> length (foldl set_add (acc @ [x]) xs)"
      by (rule length_foldl_set_add)
    with False Cons.prems show ?thesis by (simp add: foldl_set_add_Cons del: foldl_Cons)
  qed
qed

lemma foldl_set_add_distinct: "distinct (acc @ xs) \<Longrightarrow> foldl set_add acc xs = acc @ xs"
  by (induction xs arbitrary: acc) (auto simp: set_add_def)

lemma new_Set_distinct: "distinct xs \<Longrightarrow> new_Set xs = xs"
  using foldl_set_add_distinct[of "[]" xs] by (simp add: new_Set_def)

lemma set_new_Set [simp]: "set (new_Set xs) = set xs"
  by (simp add: new_Set_def set_foldl_set_add)

lemma distinct_new_Set [simp]: "distinct (new_Set xs)"
  by (simp add: new_Set_def distinct_foldl_set_add)

lemma new_Set_append: "new_Set (xs @ ys) = foldl set_add (new_Set xs) ys"
  by (simp add: new_Set_def)

lemma list_all_enumerate_eq:
  "length xs = length ys \<Longrightarrow>
   list_all (\<lambda>(index, item). item = ys ! index) (enumerate 0 xs) \<longleftrightarrow> xs = ys"
  by (simp add: list_all_length nth_enumerate_eq list_eq_iff_nth_eq)

lemma isEqual_iff:
  "isEqual a b \<longleftrightarrow> ''*'' \<in> set a \<or> mset a = mset b"
proof (cases "''*'' \<in> set a")
  case True
  then show ?thesis by (simp add: isEqual_def)
next
  case False
  show ?thesis
  proof (cases "length a = length b")
    case True
    then have "isEqual a b \<longleftrightarrow> sort a = sort b"
      using False by (simp add: isEqual_def list_all_enumerate_eq)
    also have "\<dots> \<longleftrightarrow> mset a = mset b"
      by (metis mset_sort sorted_list_of_multiset_mset)
    finally show ?thesis using False by simp
  next
    case False
    then have "mset a \<noteq> mset b" by (metis size_mset)
    with False \<open>''*'' \<notin> set a\<close> show ?thesis by (simp add: isEqual_def)
  qed
qed

lemma isEqual_merged:
  "isEqual a (new_Set (a @ only)) \<longleftrightarrow> ''*'' \<in> set a \<or> distinct a \<and> set only \<subseteq> set a"
proof (cases "''*'' \<in> set a")
  case True
  then show ?thesis by (simp add: isEqual_iff)
next
  case False
  have "mset a = mset (new_Set (a @ only)) \<longleftrightarrow> distinct a \<and> set only \<subseteq> set a"
  proof
    assume eq: "mset a = mset (new_Set (a @ only))"
    then have d: "distinct a" by (metis distinct_new_Set mset_eq_imp_distinct_iff)
    then have "new_Set (a @ only) = foldl set_add a only"
      by (simp add: new_Set_append new_Set_distinct)
    moreover have "length a = length (new_Set (a @ only))" using eq by (metis size_mset)
    ultimately have "set only \<subseteq> set a" by (simp add: length_foldl_set_add_eq)
    with d show "distinct a \<and> set only \<subseteq> set a" by simp
  next
    assume "distinct a \<and> set only \<subseteq> set a"
    then have "new_Set (a @ only) = a"
      by (simp add: new_Set_append new_Set_distinct foldl_set_add_subset)
    then show "mset a = mset (new_Set (a @ only))" by simp
  qed
  with False show ?thesis by (simp add: isEqual_iff)
qed

text \<open>
  Claim C1, as amended. For a dequeued item whose path has an entry in the result cache:
  the entry is reused, with no recomputation, if and only if the cached list of requested
  exports contains \<^verbatim>\<open>"*"\<close>, or has no name twice and contains every name of the current
  request; otherwise the entry of the path in the evaluation cache is deleted and the file
  is recomputed for the merged list, whose names are those of both lists.
\<close>

theorem cached_result_reused_iff:
  assumes ep: "ep = ni_entrypoint nextItem"
    and c1: "c1 = invalidateIfChanged e c (ep_name ep) (ep_code ep)"
    and cached: "codeCache c1 (ep_name ep) = Some entry"
    and merged: "mergedOnly = new_Set (ce_only entry @ ep_only ep)"
  shows "set mergedOnly = set (ce_only entry) \<union> set (ep_only ep)
       \<and> (if ''*'' \<in> set (ce_only entry)
              \<or> distinct (ce_only entry) \<and> set (ep_only ep) \<subseteq> set (ce_only entry)
           then processEntrypoint e heap c nextItem =
                  Inr (Processed
                         (if ep_name ep \<in> set (ni_stack nextItem) then None else ce_imports entry)
                         (ce_result entry) mergedOnly, c1)
           else processEntrypoint e heap c nextItem =
                  recompute e heap (c1\<lparr>evalCache := (evalCache c1)(ep_name ep := None)\<rparr>)
                    nextItem mergedOnly)"
  using assms
  by (simp add: processEntrypoint_def Let_def mergedOnly_of_def isEqual_merged)

theorem cached_result_reused_iff_witness:
  "processEntrypoint example_env [] (example_cached [''a'', ''b'']) (example_item ''/x.js'' [''a''])
     = Inr (Processed None
              \<lparr>r_ast = File ''cached'', r_code = ''cached x'', r_metadata = None,
                r_exports = None, r_deadExports = []\<rparr>
              [''a'', ''b''], example_cached [''a'', ''b''])
   \<and> processEntrypoint example_env [] (example_cached [''a'', ''b'']) (example_item ''/x.js'' [''c''])
     = recompute example_env []
         ((example_cached [''a'', ''b''])\<lparr>evalCache := Map.empty\<rparr>)
         (example_item ''/x.js'' [''c'']) [''a'', ''b'', ''c'']"
proof -
  let ?c = "example_cached [''a'', ''b'']"
  let ?entry = "\<lparr>ce_imports = None, ce_only = [''a'', ''b''],
             ce_result = \<lparr>r_ast = File ''cached'', r_code = ''cached x'', r_metadata = None,
                           r_exports = None, r_deadExports = []\<rparr>\<rparr>"
  have inv: "invalidateIfChanged example_env ?c ''/x.js'' ''source of /x.js'' = ?c"
    by (simp add: example_defs)
  have 1: "codeCache (invalidateIfChanged example_env ?c
             (ep_name (example_entry ''/x.js'' only)) (ep_code (example_entry ''/x.js'' only)))
             (ep_name (example_entry ''/x.js'' only)) = Some ?entry" for only
    by (simp add: example_defs)
  have ep: "example_entry ''/x.js'' only = ni_entrypoint (example_item ''/x.js'' only)" for only
    by (simp add: example_defs)
  from cached_result_reused_iff[OF ep refl 1 refl, of "[''a'']" "[]"] cached_result_reused_iff[OF ep refl 1 refl, of "[''c'']" "[]"] inv
  show ?thesis
    by (simp add: example_entry_def example_item_def new_Set_def set_add_def)
       (simp add: example_cached_def empty_caches_def)
qed

text \<open>
  The claim as stated fails for a cached list with a repeated name: the cache holds a
  result of \<^verbatim>\<open>/x.js\<close> for \<^verbatim>\<open>["a", "a"]\<close>, the request is \<^verbatim>\<open>["a"]\<close>, and the file is
  recomputed although every requested name is cached.
\<close>

theorem duplicate_names_recomputed:
  "ce_only (the (codeCache (example_cached [''a'', ''a'']) ''/x.js'')) = [''a'', ''a'']
   \<and> set (ep_only (ni_entrypoint (example_item ''/x.js'' [''a''])))
        \<subseteq> set (ce_only (the (codeCache (example_cached [''a'', ''a'']) ''/x.js'')))
   \<and> evalCache (example_cached [''a'', ''a'']) ''/x.js'' = Some (Module ''x'')
   \<and> (\<exists>c'. processEntrypoint example_env [] (example_cached [''a'', ''a''])
               (example_item ''/x.js'' [''a''])
             = Inr (Processed None
                      \<lparr>r_ast = File ''source of /x.js'', r_code = ''x'', r_metadata = None,
                        r_exports = Some [''b''], r_deadExports = [''a'']\<rparr>
                      [''a''], c')
           \<and> evalCache c' ''/x.js'' = None)"
  by (simp add: example_defs stage_defs isEqual_def)

subsection \<open>The resolution cache\<close>

lemma js_split_not_Nil [simp]: "js_split sep s \<noteq> []"
  by (induction s) (auto split: list.splits)

lemma js_split_no_sep: "sep \<notin> set s \<Longrightarrow> js_split sep s = [s]"
  by (induction s) auto

lemma js_split_append_sep:
  "sep \<notin> set x \<Longrightarrow> js_split sep (x @ sep # y) = x # js_split sep y"
  by (induction x) auto

lemma js_split_free: "w \<in> set (js_split sep s) \<Longrightarrow> sep \<notin> set w"
proof (induction s arbitrary: w)
  case Nil
  then show ?case by simp
next
  case (Cons c s)
  show ?case
  proof (cases "c = sep")
    case True
    with Cons show ?thesis by auto
  next
    case False
    obtain v vs where v: "js_split sep s = v # vs"
      by (cases "js_split sep s") auto
    with False Cons.prems have "w = c # v \<or> w \<in> set vs" by simp
    then show ?thesis
    proof
      assume "w = c # v"
      moreover have "sep \<notin> set v" using Cons.IH[of v] v by simp
      ultimately show ?thesis using False by simp
    next
      assume "w \<in> set vs"
      then show ?thesis using Cons.IH[of w] v by simp
    qed
  qed
qed

lemma js_split_subset: "w \<in> set (js_split sep s) \<Longrightarrow> set w \<subseteq> set s"
proof (induction s arbitrary: w)
  case Nil
  then show ?case by simp
next
  case (Cons c s)
  show ?case
  proof (cases "c = sep")
    case True
    with Cons show ?thesis by auto
  next
    case False
    obtain v vs where v: "js_split sep s = v # vs"
      by (cases "js_split sep s") auto
    with False Cons.prems have "w = c # v \<or> w \<in> set vs" by simp
    then show ?thesis
    proof
      assume "w = c # v"
      moreover have "set v \<subseteq> set s" using Cons.IH[of v] v by simp
      ultimately show ?thesis by auto
    next
      assume "w \<in> set vs"
      then have "set w \<subseteq> set s" using Cons.IH[of w] v by simp
      then show ?thesis by auto
    qed
  qed
qed

lemma js_split_join:
  "xs \<noteq> [] \<Longrightarrow> \<forall>x \<in> set xs. sep \<notin> set x \<Longrightarrow> js_split sep (js_join [sep] xs) = xs"
proof (induction "[sep]" xs rule: js_join.induct)
  case 1
  then show ?case by simp
next
  case (2 x)
  then show ?case by (simp add: js_split_no_sep)
next
  case (3 x y ys)
  then show ?case by (simp add: js_split_append_sep)
qed

lemma set_js_join:
  "set (js_join [sep] xs) \<subseteq> insert sep (\<Union> (set ` set xs))"
  by (induction "[sep]" xs rule: js_join.induct) auto

lemma mergedImportsOnly_stored:
  assumes "stored_only old = Some previous"
  shows "mergedImportsOnly (Some old) importsOnly = foldl set_add (new_Set importsOnly) previous"
  using assms
  by (auto simp: mergedImportsOnly_def stored_only_def Let_def split: if_splits list.splits)

lemma stored_only_written:
  assumes "names \<noteq> []"
    and "\<forall>n \<in> set names. CHR '','' \<notin> set n \<and> CHR 0x00 \<notin> set n"
    and "CHR 0x00 \<notin> set resolved"
  shows "stored_only (resolved @ [CHR 0x00] @ js_join '','' names) = Some names"
proof -
  have "set (js_join [CHR '',''] names) \<subseteq> insert CHR '','' (\<Union> (set ` set names))"
    by (rule set_js_join)
  then have free: "CHR 0x00 \<notin> set (js_join '','' names)"
    using assms(2) by auto
  have "js_split (CHR 0x00) (resolved @ [CHR 0x00] @ js_join '','' names)
          = [resolved, js_join '','' names]"
    using assms(3) free by (simp add: js_split_append_sep js_split_no_sep)
  moreover have "js_split CHR '','' (js_join '','' names) = names"
    using assms(1,2) by (intro js_split_join) auto
  ultimately show ?thesis by (simp add: stored_only_def)
qed

text \<open>
  Claim C3, as amended. When a value is stored for an edge of the resolution cache that
  already holds a value with requested-export names, and no newly requested name contains
  a comma or a NUL character and the resolved path contains no NUL character, the names of
  the value stored are those of the previous value together with the newly requested ones:
  no name stored before is lost.
\<close>

theorem resolution_cache_union:
  assumes old: "resolveCache c (resolveCacheKey parentName importedFile) = Some old"
    and prev: "stored_only old = Some previous"
    and names: "\<forall>n \<in> set importsOnly. CHR '','' \<notin> set n \<and> CHR 0x00 \<notin> set n"
    and path: "CHR 0x00 \<notin> set resolved"
  shows "\<exists>new stored.
           resolveCache (storeResolved c parentName importedFile importsOnly resolved)
             (resolveCacheKey parentName importedFile) = Some new
         \<and> stored_only new = Some stored
         \<and> set stored = set previous \<union> set importsOnly
         \<and> set previous \<subseteq> set stored"
proof -
  let ?m = "foldl set_add (new_Set importsOnly) previous"
  have prev_ne: "previous \<noteq> []"
    using prev by (auto simp: stored_only_def split: if_splits list.splits)
  have prev_free: "\<forall>n \<in> set previous. CHR '','' \<notin> set n \<and> CHR 0x00 \<notin> set n"
  proof
    fix n assume n: "n \<in> set previous"
    from prev obtain x cachedOnly rest where
      sp: "js_split (CHR 0x00) old = x # cachedOnly # rest"
      and pv: "previous = js_split CHR '','' cachedOnly"
      by (auto simp: stored_only_def split: if_splits list.splits)
    have "CHR '','' \<notin> set n" using n pv js_split_free by metis
    moreover have "CHR 0x00 \<notin> set cachedOnly"
      using js_split_free[of cachedOnly "CHR 0x00" old] sp by simp
    moreover have "set n \<subseteq> set cachedOnly"
      using n unfolding pv by (rule js_split_subset)
    ultimately show "CHR '','' \<notin> set n \<and> CHR 0x00 \<notin> set n" by auto
  qed
  have set_m: "set ?m = set previous \<union> set importsOnly"
    by (auto simp: set_foldl_set_add)
  have m_ne: "?m \<noteq> []" using prev_ne set_m by (metis Un_iff empty_iff empty_set last_in_set)
  have m_free: "\<forall>n \<in> set ?m. CHR '','' \<notin> set n \<and> CHR 0x00 \<notin> set n"
    using names prev_free unfolding set_m by auto
  have new: "resolveCache (storeResolved c parentName importedFile importsOnly resolved)
             (resolveCacheKey parentName importedFile)
           = Some (resolved @ [CHR 0x00] @ js_join '','' ?m)"
    using old mergedImportsOnly_stored[OF prev] by (simp add: storeResolved_def Let_def)
  have "stored_only (resolved @ [CHR 0x00] @ js_join '','' ?m) = Some ?m"
    using m_ne m_free path by (rule stored_only_written)
  with new set_m show ?thesis by auto
qed

theorem resolution_cache_union_witness:
  "resolveCache
     (storeResolved
        (empty_caches\<lparr>resolveCache := [''/main.js -> ./x'' \<mapsto> ''/x.js'' @ [CHR 0x00] @ ''a,b'']\<rparr>)
        ''/main.js'' ''./x'' [''b'', ''c''] ''/x.js'')
     ''/main.js -> ./x''
   = Some (''/x.js'' @ [CHR 0x00] @ ''b,c,a'')
   \<and> stored_only (''/x.js'' @ [CHR 0x00] @ ''a,b'') = Some [''a'', ''b'']
   \<and> stored_only (''/x.js'' @ [CHR 0x00] @ ''b,c,a'') = Some [''b'', ''c'', ''a'']"
proof -
  let ?c = "empty_caches\<lparr>resolveCache := [''/main.js -> ./x'' \<mapsto> ''/x.js'' @ [CHR 0x00] @ ''a,b'']\<rparr>"
  have 1: "resolveCache ?c (resolveCacheKey ''/main.js'' ''./x'')
             = Some (''/x.js'' @ [CHR 0x00] @ ''a,b'')"
    by (simp add: resolveCacheKey_def)
  have 2: "stored_only (''/x.js'' @ [CHR 0x00] @ ''a,b'') = Some [''a'', ''b'']"
    by (simp add: stored_only_def)
  have 3: "\<forall>n \<in> set [''b'', ''c'']. CHR '','' \<notin> set n \<and> CHR 0x00 \<notin> set n" by simp
  have 4: "CHR 0x00 \<notin> set ''/x.js''" by simp
  from resolution_cache_union[OF 1 2 3 4] 2 show ?thesis
    by (simp add: storeResolved_def mergedImportsOnly_def resolveCacheKey_def new_Set_def
          set_add_def stored_only_def Let_def)
qed

text \<open>
  The claim as stated fails for a requested name that contains the separator: stored with
  the name \<^verbatim>\<open>c\<close>, the edge is written again for the one name \<^verbatim>\<open>a,b\<close>, and the value
  then holds the three names \<^verbatim>\<open>a\<close>, \<^verbatim>\<open>b\<close>, \<^verbatim>\<open>c\<close>.
\<close>

theorem separator_in_name_splits:
  "stored_only (''/x.js'' @ [CHR 0x00] @ ''c'') = Some [''c'']
   \<and> resolveCache
       (storeResolved
          (empty_caches\<lparr>resolveCache := [''/main.js -> ./x'' \<mapsto> ''/x.js'' @ [CHR 0x00] @ ''c'']\<rparr>)
          ''/main.js'' ''./x'' [''a,b''] ''/x.js'')
       ''/main.js -> ./x''
     = Some (''/x.js'' @ [CHR 0x00] @ ''a,b,c'')
   \<and> stored_only (''/x.js'' @ [CHR 0x00] @ ''a,b,c'') = Some [''a'', ''b'', ''c'']
   \<and> set [''a'', ''b'', ''c''] \<noteq> set [''c''] \<union> set [''a,b'']"
  by (simp add: storeResolved_def mergedImportsOnly_def resolveCacheKey_def new_Set_def
        set_add_def stored_only_def Let_def) auto

subsection \<open>The propagation of dead exports\<close>

text \<open>
  Claim C2, as amended. Each time an import of a file reports, it is removed from the
  remaining imports and its dead exports that match an import binding are collected. Only
  when no import remains and at least one dead import was collected, the entry of the
  importer in the result cache is deleted and the importer is enqueued again, under the
  same import chain and callback, with the collected dead imports of these imports as its
  dead imports; in every other case the caches and the queue stay as they are.
\<close>

theorem dead_export_propagation:
  assumes "b < length (batches s)"
    and "s' = onEveryImport b ep res s"
    and "parent = b_parent (batches s ! b)"
    and "remaining = b_remaining (batches s ! b) - {Some (ep_name ep)}"
    and "collected = b_deadImports (batches s ! b) @
           List.map_filter
             (\<lambda>deadExport. find (\<lambda>i. ib_from i = ep_name ep \<and> ib_what i = deadExport)
                               (b_allImports (batches s ! b)))
             (r_deadExports res)"
  shows "b_remaining (batches s' ! b) = remaining
       \<and> b_deadImports (batches s' ! b) = collected
       \<and> (if remaining = {} \<and> collected \<noteq> []
          then codeCache (cache s') = (codeCache (cache s))(ep_name (ni_entrypoint parent) := None)
             \<and> queue s' = queue s @
                 [\<lparr>ni_entrypoint = (ni_entrypoint parent)\<lparr>ep_deadImports := Some b\<rparr>,
                   ni_stack = ni_stack parent, ni_onSuccess = ni_onSuccess parent\<rparr>]
             \<and> deadImports_of (batches s')
                 ((ni_entrypoint parent)\<lparr>ep_deadImports := Some b\<rparr>) = collected
          else cache s' = cache s \<and> queue s' = queue s)"
  using assms
  by (simp add: onEveryImport_def Let_def enqueue_def deadImports_of_def)

theorem dead_export_propagation_witness:
  "b_remaining (batches (onEveryImport 0 (example_entry ''/x.js'' [''a''])
        \<lparr>r_ast = File ''x'', r_code = ''x'', r_metadata = None, r_exports = None,
          r_deadExports = [''a'']\<rparr> example_waiting) ! 0) = {}
   \<and> codeCache (cache (onEveryImport 0 (example_entry ''/x.js'' [''a''])
        \<lparr>r_ast = File ''x'', r_code = ''x'', r_metadata = None, r_exports = None,
          r_deadExports = [''a'']\<rparr> example_waiting)) ''/main.js'' = None
   \<and> queue (onEveryImport 0 (example_entry ''/x.js'' [''a''])
        \<lparr>r_ast = File ''x'', r_code = ''x'', r_metadata = None, r_exports = None,
          r_deadExports = [''a'']\<rparr> example_waiting)
       = [\<lparr>ni_entrypoint = (example_entry ''/main.js'' [''*''])\<lparr>ep_deadImports := Some 0\<rparr>,
           ni_stack = [], ni_onSuccess = RootCallback\<rparr>]
   \<and> queue (onEveryImport 0 (example_entry ''/y.js'' [''c''])
        \<lparr>r_ast = File ''y'', r_code = ''y'', r_metadata = None, r_exports = None,
          r_deadExports = [''c'']\<rparr> example_waiting) = []"
proof -
  have len: "0 < length (batches example_waiting)" by (simp add: example_waiting_def)
  let ?x = "\<lparr>r_ast = File ''x'', r_code = ''x'', r_metadata = None, r_exports = None,
          r_deadExports = [''a'']\<rparr>"
  let ?y = "\<lparr>r_ast = File ''y'', r_code = ''y'', r_metadata = None, r_exports = None,
          r_deadExports = [''c'']\<rparr>"
  from dead_export_propagation[OF len refl refl refl refl, of "example_entry ''/x.js'' [''a'']" ?x]
       dead_export_propagation[OF len refl refl refl refl, of "example_entry ''/y.js'' [''c'']" ?y]
  show ?thesis
    by (simp add: example_defs List.map_filter_def)
qed

text \<open>
  The claim as stated says that the importer's list of dead imports is extended. It is
  replaced: \<^verbatim>\<open>/main.js\<close> is processed a second time with the dead import \<^verbatim>\<open>a\<close> of
  \<^verbatim>\<open>/x.js\<close>, then imports \<^verbatim>\<open>c\<close> from \<^verbatim>\<open>/y.js\<close>, which reports it dead, and is
  enqueued a third time with the dead import \<^verbatim>\<open>c\<close> alone.
\<close>

theorem dead_imports_replaced:
  "\<exists>s. rounds 4 example_env (resolveImportsSync example_resolve) (example_start ''/main.js'')
          = Some (Inr s)
       \<and> map (\<lambda>i. (ep_name (ni_entrypoint i), deadImports_of (batches s) (ni_entrypoint i)))
            (queue s)
          = [(''/main.js'', [\<lparr>ib_from = ''/y.js'', ib_what = ''c'', ib_file = Some ''/y.js''\<rparr>])]
       \<and> ep_name (ni_entrypoint (b_parent (batches s ! 1))) = ''/main.js''
       \<and> deadImports_of (batches s) (ni_entrypoint (b_parent (batches s ! 1)))
          = [\<lparr>ib_from = ''/x.js'', ib_what = ''a'', ib_file = Some ''/x.js''\<rparr>]"
  by (simp add: example_defs stage_defs eval_nat_numeral)

subsection \<open>What a round does to the queue and the closures\<close>

lemma createEntrypoint_Ignored_iff:
  "createEntrypoint e name only code = Inr Ignored \<longleftrightarrow>
     extname e name \<notin> set (extensions (pluginOptions e))
     \<or> rule_action (getMatchedRule e (rules (pluginOptions e)) name code) = ActionString ''ignore''"
  by (auto simp: createEntrypoint_def Let_def split: sum.splits action.splits)

lemma createEntrypoint_Created:
  assumes "createEntrypoint e name only code = Inr (Created ep)"
  shows "ep_name ep = name \<and> ep_deadImports ep = None \<and> ep_only ep = only \<and> ep_code ep = code"
  using assms
  by (auto simp: createEntrypoint_def Let_def split: if_splits sum.splits action.splits)


text \<open>What the loop of \<open>processImports\<close> does to the queue and the closures.\<close>

lemma processImports_loop_effect:
  assumes "processImports_loop e b parent R s = Inr s'"
  shows "batches s' = batches s \<and>
         (\<exists>new. queue s' = queue s @ new \<and>
            (\<forall>it \<in> set new.
               ni_onSuccess it = OnEveryImport b \<and> ep_deadImports (ni_entrypoint it) = None
               \<and> (\<exists>i \<in> set R. \<exists>content.
                     ri_resolved i = Some (ep_name (ni_entrypoint it))
                     \<and> readFileSync e (ep_name (ni_entrypoint it)) = Inr content
                     \<and> createEntrypoint e (ep_name (ni_entrypoint it)) (ri_importsOnly i) content
                         = Inr (Created (ni_entrypoint it)))))"
  using assms
proof (induction R arbitrary: s)
  case Nil
  then show ?case by simp
next
  case (Cons i R)
  show ?case
  proof (cases "ri_resolved i")
    case None
    with Cons.prems have "processImports_loop e b parent R s = Inr s'" by simp
    from Cons.IH[OF this] show ?thesis by fastforce
  next
    case (Some p)
    let ?s1 = "s\<lparr>cache := storeResolved (cache s) (ep_name (ni_entrypoint parent))
                              (ri_importedFile i) (ri_importsOnly i) p\<rparr>"
    from Cons.prems Some obtain content where content: "readFileSync e p = Inr content"
      by (cases "readFileSync e p") (auto simp: Let_def)
    from Cons.prems Some content obtain cr where
      cr: "createEntrypoint e p (ri_importsOnly i) content = Inr cr"
      by (cases "createEntrypoint e p (ri_importsOnly i) content") (auto simp: Let_def)
    show ?thesis
    proof (cases cr)
      case Ignored
      with Cons.prems Some content cr have "processImports_loop e b parent R ?s1 = Inr s'"
        by (simp add: Let_def)
      from Cons.IH[OF this] show ?thesis by fastforce
    next
      case (Created nxt)
      let ?it = "\<lparr>ni_entrypoint = nxt, ni_stack = ep_name (ni_entrypoint parent) # ni_stack parent,
                   ni_onSuccess = OnEveryImport b\<rparr>"
      let ?s2 = "?s1\<lparr>queue := queue ?s1 @ [?it]\<rparr>"
      from Cons.prems Some content cr Created
      have "processImports_loop e b parent R ?s2 = Inr s'"
        by (simp add: Let_def enqueue_def)
      from Cons.IH[OF this] obtain new where
        b: "batches s' = batches s" and q: "queue s' = queue s @ ?it # new"
        and new: "\<forall>it \<in> set new.
               ni_onSuccess it = OnEveryImport b \<and> ep_deadImports (ni_entrypoint it) = None
               \<and> (\<exists>i \<in> set R. \<exists>content.
                     ri_resolved i = Some (ep_name (ni_entrypoint it))
                     \<and> readFileSync e (ep_name (ni_entrypoint it)) = Inr content
                     \<and> createEntrypoint e (ep_name (ni_entrypoint it)) (ri_importsOnly i) content
                         = Inr (Created (ni_entrypoint it)))"
        by auto
      have nm: "ep_name nxt = p" "ep_deadImports nxt = None"
        using createEntrypoint_Created[of e p "ri_importsOnly i" content nxt] cr Created
        by simp_all
      have "\<forall>it \<in> set (?it # new).
               ni_onSuccess it = OnEveryImport b \<and> ep_deadImports (ni_entrypoint it) = None
               \<and> (\<exists>i \<in> set (i # R). \<exists>content.
                     ri_resolved i = Some (ep_name (ni_entrypoint it))
                     \<and> readFileSync e (ep_name (ni_entrypoint it)) = Inr content
                     \<and> createEntrypoint e (ep_name (ni_entrypoint it)) (ri_importsOnly i) content
                         = Inr (Created (ni_entrypoint it)))"
      proof
        fix it assume "it \<in> set (?it # new)"
        then consider "it = ?it" | "it \<in> set new" by auto
        then show "ni_onSuccess it = OnEveryImport b \<and> ep_deadImports (ni_entrypoint it) = None
               \<and> (\<exists>i \<in> set (i # R). \<exists>content.
                     ri_resolved i = Some (ep_name (ni_entrypoint it))
                     \<and> readFileSync e (ep_name (ni_entrypoint it)) = Inr content
                     \<and> createEntrypoint e (ep_name (ni_entrypoint it)) (ri_importsOnly i) content
                         = Inr (Created (ni_entrypoint it)))"
        proof cases
          case 1
          then show ?thesis using nm Some content cr Created by auto
        next
          case 2
          then show ?thesis using new by auto
        qed
      qed
      with b q show ?thesis by blast
    qed
  qed
qed

lemma processImports_effect:
  assumes "processImports e s parent R = Inr s'"
  shows "batches s' = batches s @
           [\<lparr>b_allImports = allImports_of R, b_deadImports = [],
             b_remaining = set (map ib_file (allImports_of R)), b_parent = parent\<rparr>]
       \<and> (\<exists>new. queue s' = queue s @ new \<and>
            (\<forall>it \<in> set new.
               ni_onSuccess it = OnEveryImport (length (batches s))
               \<and> ep_deadImports (ni_entrypoint it) = None
               \<and> (\<exists>i \<in> set R. \<exists>content.
                     ri_resolved i = Some (ep_name (ni_entrypoint it))
                     \<and> readFileSync e (ep_name (ni_entrypoint it)) = Inr content
                     \<and> createEntrypoint e (ep_name (ni_entrypoint it)) (ri_importsOnly i) content
                         = Inr (Created (ni_entrypoint it)))))"
proof -
  let ?s1 = "s\<lparr>batches := batches s @
           [\<lparr>b_allImports = allImports_of R, b_deadImports = [],
             b_remaining = set (map ib_file (allImports_of R)), b_parent = parent\<rparr>]\<rparr>"
  have "processImports_loop e (length (batches s)) parent R ?s1 = Inr s'"
    using assms by (simp add: processImports_def Let_def)
  from processImports_loop_effect[OF this] show ?thesis by simp
qed

lemma onEveryImport_outside: "length (batches s) \<le> b \<Longrightarrow> onEveryImport b ep res s = s"
  by (simp add: onEveryImport_def)

lemma onEveryImport_batches_eq:
  assumes "b < length (batches s)"
  shows "batches (onEveryImport b ep res s) =
           (batches s)[b := (batches s ! b)
              \<lparr>b_remaining := b_remaining (batches s ! b) - {Some (ep_name ep)},
               b_deadImports := b_deadImports (batches s ! b) @
                 List.map_filter
                   (\<lambda>deadExport. find (\<lambda>i. ib_from i = ep_name ep \<and> ib_what i = deadExport)
                                     (b_allImports (batches s ! b)))
                   (r_deadExports res)\<rparr>]"
  using assms by (simp add: onEveryImport_def Let_def)

lemma onEveryImport_batches:
  assumes "b < length (batches s)"
  shows "\<exists>bt'. batches (onEveryImport b ep res s) = (batches s)[b := bt']
              \<and> b_parent bt' = b_parent (batches s ! b)
              \<and> b_remaining bt' = b_remaining (batches s ! b) - {Some (ep_name ep)}"
  unfolding onEveryImport_batches_eq[OF assms]
  by (intro exI conjI) (rule refl, simp_all)

lemma onEveryImport_queue:
  assumes "b < length (batches s)"
  shows "queue (onEveryImport b ep res s) = queue s
       \<or> b_remaining (batches s ! b) - {Some (ep_name ep)} = {}
         \<and> queue (onEveryImport b ep res s) = queue s @
             [\<lparr>ni_entrypoint = (ni_entrypoint (b_parent (batches s ! b)))\<lparr>ep_deadImports := Some b\<rparr>,
               ni_stack = ni_stack (b_parent (batches s ! b)),
               ni_onSuccess = ni_onSuccess (b_parent (batches s ! b))\<rparr>]"
  using assms by (simp add: onEveryImport_def Let_def enqueue_def)





subsection \<open>An import that cannot be resolved\<close>

lemma resolveCacheKey_inj [simp]:
  "resolveCacheKey n a = resolveCacheKey n b \<longleftrightarrow> a = b"
  by (simp add: resolveCacheKey_def)









subsection \<open>Ignored files\<close>

lemma find_first_match:
  "rs = before @ r # after \<Longrightarrow> \<forall>r' \<in> set before. \<not> P r' \<Longrightarrow> P r \<Longrightarrow> find P rs = Some r"
  by (induction before arbitrary: rs) auto

lemma accepted_iff:
  "accepted e ep \<longleftrightarrow> createEntrypoint e (ep_name ep) only (ep_code ep) \<noteq> Inr Ignored"
  by (simp add: accepted_def createEntrypoint_Ignored_iff)

lemma accepted_Created:
  assumes "createEntrypoint e name only code = Inr (Created ep)"
  shows "accepted e ep"
proof -
  from createEntrypoint_Created[OF assms] have "ep_name ep = name" "ep_code ep = code" by simp_all
  then show ?thesis
    using assms accepted_iff[of e ep only] by simp
qed

lemma accepted_deadImports [simp]: "accepted e (ep\<lparr>ep_deadImports := d\<rparr>) = accepted e ep"
  by (simp add: accepted_def)

lemma all_accepted_onEveryImport:
  assumes "all_accepted e s"
  shows "all_accepted e (onEveryImport b' ep res s)"
proof (cases "b' < length (batches s)")
  case False
  then show ?thesis using assms by (simp add: onEveryImport_outside)
next
  case True
  let ?s' = "onEveryImport b' ep res s"
  from assms have qa: "\<forall>it \<in> set (queue s). accepted e (ni_entrypoint it)"
    and pa: "\<forall>bt \<in> set (batches s). accepted e (ni_entrypoint (b_parent bt))"
    by (simp_all add: all_accepted_def list_all_iff)
  from onEveryImport_batches[OF True, of ep res] obtain bt' where
    bs: "batches ?s' = (batches s)[b' := bt']"
    and par: "b_parent bt' = b_parent (batches s ! b')"
    by blast
  have parent_in: "batches s ! b' \<in> set (batches s)" using True by simp
  have pa': "\<forall>bt \<in> set (batches ?s'). accepted e (ni_entrypoint (b_parent bt))"
  proof
    fix bt assume "bt \<in> set (batches ?s')"
    then have "bt = bt' \<or> bt \<in> set (batches s)"
      using bs set_update_subset_insert[of "batches s" b' bt'] by auto
    then show "accepted e (ni_entrypoint (b_parent bt))"
      using pa par parent_in by auto
  qed
  have qa': "\<forall>it \<in> set (queue ?s'). accepted e (ni_entrypoint it)"
    using onEveryImport_queue[OF True, of ep res] qa pa parent_in by auto
  show ?thesis using qa' pa' by (simp add: all_accepted_def list_all_iff)
qed

lemma all_accepted_processImports:
  assumes run: "processImports e s parent R = Inr s'"
    and acc: "all_accepted e s"
    and parent: "accepted e (ni_entrypoint parent)"
  shows "all_accepted e s'"
proof -
  let ?bt = "\<lparr>b_allImports = allImports_of R, b_deadImports = [],
             b_remaining = set (map ib_file (allImports_of R)), b_parent = parent\<rparr>"
  from processImports_effect[OF run] obtain new where
    bs: "batches s' = batches s @ [?bt]" and q: "queue s' = queue s @ new"
    and new: "\<forall>it \<in> set new. \<exists>i \<in> set R. \<exists>content.
                 createEntrypoint e (ep_name (ni_entrypoint it)) (ri_importsOnly i) content
                   = Inr (Created (ni_entrypoint it))"
    by blast
  have "\<forall>it \<in> set new. accepted e (ni_entrypoint it)"
    using new accepted_Created by blast
  then show ?thesis
    using acc parent bs q by (auto simp: all_accepted_def list_all_iff)
qed

lemma all_accepted_iteration:
  assumes it: "iteration e resolveAll s = Inr s'"
    and acc: "all_accepted e s"
  shows "all_accepted e s'"
proof (cases "queue s")
  case Nil
  with it have "s' = s\<lparr>queue := []\<rparr>" by (simp add: iteration_def dequeue_def)
  with acc Nil show ?thesis by (simp add: all_accepted_def)
next
  case (Cons item q)
  from acc Cons have item_acc: "accepted e (ni_entrypoint item)"
    by (simp add: all_accepted_def)
  from it Cons obtain pr c1 where
    pe: "processEntrypoint e (batches s) (cache s) item = Inr (pr, c1)"
    by (cases "processEntrypoint e (batches s) (cache s) item")
       (auto simp: iteration_def dequeue_def)
  let ?s1 = "s\<lparr>queue := q, cache := c1\<rparr>"
  have acc1: "all_accepted e ?s1" using acc Cons by (simp add: all_accepted_def)
  show ?thesis
  proof (cases pr)
    case Skip
    with it Cons pe have "s' = ?s1" by (simp add: iteration_def dequeue_def)
    with acc1 show ?thesis by simp
  next
    case (Processed imps result mergedOnly)
    obtain s2 where
      s2: "(case imps of Some m \<Rightarrow> processImports e ?s1 item (resolveAll item m)
            | None \<Rightarrow> Inr ?s1) = Inr s2"
      using it Cons pe Processed
      by (cases "(case imps of Some m \<Rightarrow> processImports e ?s1 item (resolveAll item m)
            | None \<Rightarrow> Inr ?s1)") (auto simp: iteration_def dequeue_def Let_def)
    have acc2: "all_accepted e s2"
    proof (cases imps)
      case None
      with s2 acc1 show ?thesis by simp
    next
      case (Some m)
      with s2 have "processImports e ?s1 item (resolveAll item m) = Inr s2" by simp
      then show ?thesis using acc1 item_acc by (rule all_accepted_processImports)
    qed
    let ?s3 = "s2\<lparr>cache := (cache s2)\<lparr>codeCache := (codeCache (cache s2))
                 (ep_name (ni_entrypoint item) \<mapsto>
                    \<lparr>ce_imports = imps, ce_only = mergedOnly, ce_result = result\<rparr>)\<rparr>\<rparr>"
    have acc3: "all_accepted e ?s3" using acc2 by (simp add: all_accepted_def)
    have s': "s' = call_onSuccess (ni_onSuccess item) (ni_entrypoint item) result ?s3"
      using it Cons pe Processed s2 by (simp add: iteration_def dequeue_def Let_def)
    show ?thesis
    proof (cases "ni_onSuccess item")
      case RootCallback
      with s' acc3 show ?thesis by (simp add: call_onSuccess_def)
    next
      case (OnEveryImport b')
      have "all_accepted e (onEveryImport b' (ni_entrypoint item) result ?s3)"
        using acc3 by (rule all_accepted_onEveryImport)
      with s' OnEveryImport show ?thesis by (simp add: call_onSuccess_def)
    qed
  qed
qed

lemma all_accepted_rounds:
  "rounds n e resolveAll s = Some (Inr s') \<Longrightarrow> all_accepted e s \<Longrightarrow> all_accepted e s'"
proof (induction n arbitrary: s)
  case 0
  then show ?case by simp
next
  case (Suc n)
  from Suc.prems(1) obtain s1 where
    it: "iteration e resolveAll s = Inr s1" and r: "rounds n e resolveAll s1 = Some (Inr s')"
    by (auto split: if_splits sum.splits)
  from it Suc.prems(2) have "all_accepted e s1" by (rule all_accepted_iteration)
  with r show ?case by (rule Suc.IH)
qed

lemma all_accepted_start:
  "createEntrypoint e name only code = Inr (Created ep0) \<Longrightarrow>
   all_accepted e \<lparr>cache = c, queue = new_ModuleQueue ep0, batches = []\<rparr>"
  by (simp add: all_accepted_def new_ModuleQueue_def accepted_Created)

text \<open>
  Claim C5. \<open>createEntrypoint\<close> returns the marker for ignored files exactly when the
  extension of the path is not among the configured extensions or the action of the matched
  rule is \<^verbatim>\<open>'ignore'\<close>. With the rule matcher of the spec, the matched rule is the first
  rule of the list that matches the file, whatever rules follow it, and a file that no rule
  matches is ignored. For an ignored entry file both drivers return \<^verbatim>\<open>undefined\<close> and leave
  the caches alone, with no queue; \<open>processImports\<close> passes over an ignored import without
  enqueueing it; and no entrypoint in the queue of any round of a driver is one that
  \<open>createEntrypoint\<close> ignores.
\<close>

theorem ignored_never_enqueued:
  "(createEntrypoint e name only code = Inr Ignored \<longleftrightarrow>
      extname e name \<notin> set (extensions (pluginOptions e))
      \<or> rule_action (getMatchedRule e (rules (pluginOptions e)) name code) = ActionString ''ignore'')
   \<and> (getMatchedRule e = getMatchedRule_spec
        \<and> rules (pluginOptions e) = before @ r # after
        \<and> (\<forall>r' \<in> set before. \<not> rule_matches r' name code) \<and> rule_matches r name code \<longrightarrow>
        (createEntrypoint e name only code = Inr Ignored \<longleftrightarrow>
           extname e name \<notin> set (extensions (pluginOptions e))
           \<or> rule_action r = ActionString ''ignore''))
   \<and> (getMatchedRule e = getMatchedRule_spec
        \<and> (\<forall>r' \<in> set (rules (pluginOptions e)). \<not> rule_matches r' name code) \<longrightarrow>
        createEntrypoint e name only code = Inr Ignored)
   \<and> (createEntrypoint e (pe_name pe) (pe_only pe) (pe_code pe) = Inr Ignored \<longrightarrow>
        prepareForEvalSync e c resolve pe = Some (Inr (None, c))
        \<and> prepareForEval e c aresolve pe = Some (Inr (None, c)))
   \<and> (ri_resolved i = Some resolved \<and> readFileSync e resolved = Inr fileContent
        \<and> createEntrypoint e resolved (ri_importsOnly i) fileContent = Inr Ignored \<longrightarrow>
        processImports_loop e b parent (i # rest) s
          = processImports_loop e b parent rest
              (s\<lparr>cache := storeResolved (cache s) (ep_name (ni_entrypoint parent))
                            (ri_importedFile i) (ri_importsOnly i) resolved\<rparr>))
   \<and> (createEntrypoint e (pe_name pe) (pe_only pe) (pe_code pe) = Inr (Created ep0)
        \<and> rounds n e resolveAll \<lparr>cache = c, queue = new_ModuleQueue ep0, batches = []\<rparr>
            = Some (Inr s1) \<longrightarrow>
        (\<forall>it \<in> set (queue s1). \<forall>only'.
            createEntrypoint e (ep_name (ni_entrypoint it)) only' (ep_code (ni_entrypoint it))
              \<noteq> Inr Ignored))"
proof (intro conjI impI)
  show "createEntrypoint e name only code = Inr Ignored \<longleftrightarrow>
      extname e name \<notin> set (extensions (pluginOptions e))
      \<or> rule_action (getMatchedRule e (rules (pluginOptions e)) name code) = ActionString ''ignore''"
    by (rule createEntrypoint_Ignored_iff)
next
  assume a: "getMatchedRule e = getMatchedRule_spec
        \<and> rules (pluginOptions e) = before @ r # after
        \<and> (\<forall>r' \<in> set before. \<not> rule_matches r' name code) \<and> rule_matches r name code"
  then have "find (\<lambda>r. rule_matches r name code) (rules (pluginOptions e)) = Some r"
    by (intro find_first_match[where before = before and after = after]) simp_all
  then have "getMatchedRule e (rules (pluginOptions e)) name code = r"
    using a by (simp add: getMatchedRule_spec_def)
  then show "createEntrypoint e name only code = Inr Ignored \<longleftrightarrow>
           extname e name \<notin> set (extensions (pluginOptions e))
           \<or> rule_action r = ActionString ''ignore''"
    by (simp add: createEntrypoint_Ignored_iff)
next
  assume a: "getMatchedRule e = getMatchedRule_spec
        \<and> (\<forall>r' \<in> set (rules (pluginOptions e)). \<not> rule_matches r' name code)"
  then have "find (\<lambda>r. rule_matches r name code) (rules (pluginOptions e)) = None"
    by (simp add: find_None_iff)
  then have "rule_action (getMatchedRule e (rules (pluginOptions e)) name code)
               = ActionString ''ignore''"
    using a by (simp add: getMatchedRule_spec_def)
  then show "createEntrypoint e name only code = Inr Ignored"
    by (simp add: createEntrypoint_Ignored_iff)
next
  assume "createEntrypoint e (pe_name pe) (pe_only pe) (pe_code pe) = Inr Ignored"
  then show "prepareForEvalSync e c resolve pe = Some (Inr (None, c))"
    and "prepareForEval e c aresolve pe = Some (Inr (None, c))"
    by (simp_all add: prepareForEvalSync_def prepareForEval_def prepareForEvalWith_def)
next
  assume "ri_resolved i = Some resolved \<and> readFileSync e resolved = Inr fileContent
        \<and> createEntrypoint e resolved (ri_importsOnly i) fileContent = Inr Ignored"
  then show "processImports_loop e b parent (i # rest) s
          = processImports_loop e b parent rest
              (s\<lparr>cache := storeResolved (cache s) (ep_name (ni_entrypoint parent))
                            (ri_importedFile i) (ri_importsOnly i) resolved\<rparr>)"
    by (simp add: Let_def)
next
  assume a: "createEntrypoint e (pe_name pe) (pe_only pe) (pe_code pe) = Inr (Created ep0)
        \<and> rounds n e resolveAll \<lparr>cache = c, queue = new_ModuleQueue ep0, batches = []\<rparr>
            = Some (Inr s1)"
  then have "all_accepted e \<lparr>cache = c, queue = new_ModuleQueue ep0, batches = []\<rparr>"
    using all_accepted_start by blast
  with a have "all_accepted e s1" using all_accepted_rounds by blast
  then show "\<forall>it \<in> set (queue s1). \<forall>only'.
            createEntrypoint e (ep_name (ni_entrypoint it)) only' (ep_code (ni_entrypoint it))
              \<noteq> Inr Ignored"
    using accepted_iff by (auto simp: all_accepted_def list_all_iff)
qed

theorem ignored_never_enqueued_witness:
  "createEntrypoint example_env ''/vendor.css'' [''*''] ''a{}'' = Inr Ignored
   \<and> createEntrypoint example_env ''/generated.js'' [''*''] ''// generated'' = Inr Ignored
   \<and> createEntrypoint
        (example_env\<lparr>pluginOptions := (pluginOptions example_env)
            \<lparr>rules := [\<lparr>rule_action = ActionFunction example_evaluator,
                        rule_babelOptions = None,
                        rule_test = Some (\<lambda>path code. False)\<rparr>]\<rparr>\<rparr>)
        ''/main.js'' [''*''] ''source of /main.js'' = Inr Ignored
   \<and> prepareForEvalSync example_env empty_caches example_resolve
        \<lparr>pe_code = ''a{}'', pe_name = ''/vendor.css'', pe_only = [''*'']\<rparr>
      = Some (Inr (None, empty_caches))
   \<and> prepareForEval example_env empty_caches example_resolve_async
        \<lparr>pe_code = ''a{}'', pe_name = ''/vendor.css'', pe_only = [''*'']\<rparr>
      = Some (Inr (None, empty_caches))
   \<and> map_sum id queue
        (processImports_loop example_env 0 (example_item ''/page.js'' [''*''])
           [\<lparr>ri_importsOnly = [''v''], ri_importedFile = ''/vendor.css'',
             ri_resolved = Some ''/vendor.css''\<rparr>]
           (example_start ''/page.js''))
      = Inr (queue (example_start ''/page.js''))
   \<and> (\<exists>s1. rounds 1 example_env (resolveImportsSync example_resolve) (example_start ''/page.js'')
              = Some (Inr s1)
           \<and> map (\<lambda>it. ep_name (ni_entrypoint it)) (queue s1) = [''/x.js''])"
proof -
  let ?pe = "\<lparr>pe_code = ''a{}'', pe_name = ''/vendor.css'', pe_only = [''*'']\<rparr>"
  let ?pg = "\<lparr>pe_code = ''source of /page.js'', pe_name = ''/page.js'', pe_only = [''*'']\<rparr>"
  let ?i = "\<lparr>ri_importsOnly = [''v''], ri_importedFile = ''/vendor.css'',
             ri_resolved = Some ''/vendor.css''\<rparr>"
  let ?R = "resolveImportsSync example_resolve"
  let ?A = "\<lparr>rule_action = ActionString ''ignore'', rule_babelOptions = None,
             rule_test = Some (\<lambda>path code. path = ''/generated.js'')\<rparr>"
  let ?B = "\<lparr>rule_action = ActionFunction example_evaluator, rule_babelOptions = None,
             rule_test = Some (\<lambda>path code. path \<noteq> ''/generated.js'')\<rparr>"
  let ?never = "\<lparr>rule_action = ActionFunction example_evaluator, rule_babelOptions = None,
                 rule_test = Some (\<lambda>path code. False)\<rparr>"
  let ?env2 = "example_env\<lparr>pluginOptions := (pluginOptions example_env)\<lparr>rules := [?never]\<rparr>\<rparr>"
  have ext: "extname example_env ''/vendor.css'' \<notin> set (extensions (pluginOptions example_env))"
    by (simp add: example_defs)
  have m: "getMatchedRule example_env = getMatchedRule_spec"
    "getMatchedRule ?env2 = getMatchedRule_spec"
    by (simp_all add: example_env_def)
  have rs: "rules (pluginOptions example_env) = [] @ ?A # [?B]"
    by (simp add: example_env_def)
  have first: "(\<forall>r' \<in> set []. \<not> rule_matches r' ''/generated.js'' ''// generated'')
                \<and> rule_matches ?A ''/generated.js'' ''// generated''"
    by (simp add: rule_matches_def)
  have none: "\<forall>r' \<in> set (rules (pluginOptions ?env2)).
                 \<not> rule_matches r' ''/main.js'' ''source of /main.js''"
    by (simp add: rule_matches_def)
  have rd: "readFileSync example_env ''/vendor.css'' = Inr ''source of /vendor.css''"
    by (simp add: example_defs)
  have ign1: "createEntrypoint example_env ''/vendor.css'' only code = Inr Ignored" for only code
    using ext by (simp add: createEntrypoint_def)
  have cr: "createEntrypoint example_env (pe_name ?pg) (pe_only ?pg) (pe_code ?pg)
              = Inr (Created (example_entry ''/page.js'' [''*'']))"
    by (simp add: example_defs createEntrypoint_def)
  obtain s1 where run: "rounds 1 example_env ?R (example_start ''/page.js'') = Some (Inr s1)"
    and names: "map (\<lambda>it. ep_name (ni_entrypoint it)) (queue s1) = [''/x.js'']"
    by (simp add: example_defs stage_defs)
  note t1 = ignored_never_enqueued[where e = example_env and name = "''/vendor.css''" and only = "[''*'']"
        and code = "''a{}''" and pe = ?pe and c = empty_caches and resolve = example_resolve
        and aresolve = example_resolve_async and i = ?i and resolved = "''/vendor.css''"
        and fileContent = "''source of /vendor.css''" and b = 0
        and parent = "example_item ''/page.js'' [''*'']" and rest = "[]"
        and s = "example_start ''/page.js''"]
  note t2 = ignored_never_enqueued[where e = example_env and name = "''/generated.js''" and only = "[''*'']"
        and code = "''// generated''" and before = "[]" and r = ?A and after = "[?B]"
        and pe = ?pg and c = empty_caches
        and ?ep0.0 = "example_entry ''/page.js'' [''*'']" and n = 1 and resolveAll = ?R
        and ?s1.0 = s1]
  note t3 = ignored_never_enqueued[where e = ?env2 and name = "''/main.js''" and only = "[''*'']"
        and code = "''source of /main.js''"]
  have g: "createEntrypoint example_env ''/generated.js'' [''*''] ''// generated'' = Inr Ignored"
    using t2 m(1) rs first by simp
  have f: "createEntrypoint ?env2 ''/main.js'' [''*''] ''source of /main.js'' = Inr Ignored"
    using t3 m(2) none by blast
  have "\<forall>it \<in> set (queue s1). \<forall>only'.
            createEntrypoint example_env (ep_name (ni_entrypoint it)) only'
              (ep_code (ni_entrypoint it)) \<noteq> Inr Ignored"
    using t2 cr run by (simp add: example_start_def)
  from t1 ext rd ign1 run names g f show ?thesis by simp
qed

subsection \<open>Imports that never report\<close>



lemma blocked_fields:
  "queue s' = queue s \<Longrightarrow> batches s' = batches s \<Longrightarrow> blocked s' b x = blocked s b x"
  by (simp add: blocked_def)





















end
